theory Spec2Isabelle
  imports Complex_Main "HOL-Library.Multiset"
begin

section \<open>Values of the Go runtime and standard library\<close>

text \<open>
  The processor (\<^verbatim>\<open>internal/processor/processor.go\<close>) works on Go strings, on \<^verbatim>\<open>int\<close>,
  \<^verbatim>\<open>float64\<close> and \<^verbatim>\<open>time.Time\<close>. Strings are byte lists. A \<^verbatim>\<open>float64\<close> is one of the
  IEEE 754 classes: not-a-number, the two infinities, or a finite number. The two zeros are
  not told apart (they compare equal and add alike). Comparison follows IEEE 754: every
  comparison with NaN is false. A finite \<^verbatim>\<open>float64\<close> is \<open>Fin x\<close> for a real \<open>x\<close> that
  \<open>float64_round\<close> below leaves as it is; the theorems hold for every \<open>x\<close>.
\<close>

datatype float64 = NaN | NegInf | Fin real | PosInf

text \<open>
  Rounding to the nearest integer, a tie going to the even one.
\<close>

definition round_to_even :: "real \<Rightarrow> int" where
  "round_to_even x =
     (let n = \<lfloor>x\<rfloor>
      in if x - of_int n < 1 / 2 then n
         else if 1 / 2 < x - of_int n then n + 1
         else if even n then n else n + 1)"

text \<open>
  The distance between neighbouring \<^verbatim>\<open>float64\<close> values around \<open>x\<close>: a significand has 53
  bits, and the exponent of a number below \<^verbatim>\<open>2^-1022\<close> is that of \<^verbatim>\<open>2^-1022\<close>.
\<close>

definition float64_ulp :: "real \<Rightarrow> real" where
  "float64_ulp x = 2 powi (max \<lfloor>log 2 \<bar>x\<bar>\<rfloor> (- 1022) - 52)"

text \<open>
  The \<^verbatim>\<open>float64\<close> of a real number: the nearest multiple of that distance (round to
  nearest, ties to even), and an infinity when this reaches \<^verbatim>\<open>2^1024\<close>.
\<close>

definition float64_round :: "real \<Rightarrow> float64" where
  "float64_round x =
     (if x = 0 then Fin 0
      else let y = of_int (round_to_even (x / float64_ulp x)) * float64_ulp x
           in if 2 ^ 1024 \<le> y then PosInf
              else if y \<le> - (2 ^ 1024) then NegInf
              else Fin y)"

text \<open>
  Go's \<^verbatim>\<open>a + b\<close> on \<^verbatim>\<open>float64\<close>: adding zero gives the other operand; any other sum of two
  finite numbers is the exact sum, rounded, so that it can overflow to an infinity; the sum
  of the two infinities is NaN.
\<close>

fun float64_add :: "float64 \<Rightarrow> float64 \<Rightarrow> float64" where
  "float64_add (Fin a) (Fin b) =
     (if b = 0 then Fin a else if a = 0 then Fin b else float64_round (a + b))"
| "float64_add NaN y = NaN"
| "float64_add x NaN = NaN"
| "float64_add PosInf NegInf = NaN"
| "float64_add NegInf PosInf = NaN"
| "float64_add PosInf y = PosInf"
| "float64_add x PosInf = PosInf"
| "float64_add NegInf y = NegInf"
| "float64_add x NegInf = NegInf"

text \<open>Go's \<^verbatim>\<open>a < b\<close> on \<^verbatim>\<open>float64\<close>.\<close>

fun float64_less :: "float64 \<Rightarrow> float64 \<Rightarrow> bool" where
  "float64_less (Fin a) (Fin b) = (a < b)"
| "float64_less NaN y = False"
| "float64_less x NaN = False"
| "float64_less x NegInf = False"
| "float64_less NegInf y = True"
| "float64_less PosInf y = False"
| "float64_less x PosInf = True"

text \<open>Go's \<^verbatim>\<open>a > b\<close> and \<^verbatim>\<open>a >= b\<close> on \<^verbatim>\<open>float64\<close>.\<close>

definition float64_gt :: "float64 \<Rightarrow> float64 \<Rightarrow> bool" where
  "float64_gt a b = float64_less b a"

definition float64_ge :: "float64 \<Rightarrow> float64 \<Rightarrow> bool" where
  "float64_ge a b = (a \<noteq> NaN \<and> b \<noteq> NaN \<and> \<not> float64_less a b)"

text \<open>
  Go's \<^verbatim>\<open>int\<close> has 64 bits. The quantities of two rows can add up past \<open>2^63\<close>, so the
  sums of quantities wrap around. The two counters that go up by one per row
  (\<^verbatim>\<open>TransactionCount++\<close>, \<^verbatim>\<open>PurchaseCount++\<close>) stay below the number of rows read and
  are plain integers.
\<close>

definition int_add :: "int \<Rightarrow> int \<Rightarrow> int" where
  "int_add a b = (a + b + 2 ^ 63) mod 2 ^ 64 - 2 ^ 63"

text \<open>
  A \<^verbatim>\<open>time.Time\<close> is read through \<^verbatim>\<open>Year()\<close>, \<^verbatim>\<open>Month()\<close> and \<^verbatim>\<open>Format("January")\<close> only.
  Its zero value is January 1 of year 1, 00:00:00 UTC.
\<close>

datatype time_Month =
  January | February | March | April | May | June
  | July | August | September | October | November | December

record Time =
  Time_Year :: int
  Time_Month :: time_Month
  Time_Day :: nat
  Time_Nanosecond :: nat

definition Time_zero :: Time where
  "Time_zero = \<lparr>Time_Year = 1, Time_Month = January, Time_Day = 1, Time_Nanosecond = 0\<rparr>"

text \<open>The number of a month (\<^verbatim>\<open>time.Month\<close> is an \<^verbatim>\<open>int\<close>, January = 1).\<close>

fun Month_number :: "time_Month \<Rightarrow> int" where
  "Month_number January = 1"
| "Month_number February = 2"
| "Month_number March = 3"
| "Month_number April = 4"
| "Month_number May = 5"
| "Month_number June = 6"
| "Month_number July = 7"
| "Month_number August = 8"
| "Month_number September = 9"
| "Month_number October = 10"
| "Month_number November = 11"
| "Month_number December = 12"

text \<open>\<^verbatim>\<open>t.Format("January")\<close>: the full English name of the month.\<close>

fun Format_January :: "time_Month \<Rightarrow> string" where
  "Format_January January = ''January''"
| "Format_January February = ''February''"
| "Format_January March = ''March''"
| "Format_January April = ''April''"
| "Format_January May = ''May''"
| "Format_January June = ''June''"
| "Format_January July = ''July''"
| "Format_January August = ''August''"
| "Format_January September = ''September''"
| "Format_January October = ''October''"
| "Format_January November = ''November''"
| "Format_January December = ''December''"

text \<open>\<^verbatim>\<open>fmt.Sprintf\<close> with the verbs \<^verbatim>\<open>%d\<close> and \<^verbatim>\<open>%02d\<close>.\<close>

definition digit_char :: "nat \<Rightarrow> char" where
  "digit_char d = ''0123456789'' ! (d mod 10)"

fun digits :: "nat \<Rightarrow> string" where
  "digits n = (if n < 10 then [digit_char n] else digits (n div 10) @ [digit_char (n mod 10)])"

declare digits.simps [simp del]

definition Sprintf_d :: "int \<Rightarrow> string" where
  "Sprintf_d i = (if i < 0 then CHR ''-'' # digits (nat (- i)) else digits (nat i))"

definition Sprintf_02d :: "int \<Rightarrow> string" where
  "Sprintf_02d i = (let s = Sprintf_d i in replicate (2 - length s) CHR ''0'' @ s)"

text \<open>
  The functions of \<^verbatim>\<open>strings\<close>, \<^verbatim>\<open>strconv\<close> and \<^verbatim>\<open>time\<close> that the parser calls are
  parameters of the model. \<open>None\<close> stands for a non-nil error.
\<close>

record stdlib =
  TrimSpace :: "string \<Rightarrow> string"
  ToLower :: "string \<Rightarrow> string"
  ParseFloat :: "string \<Rightarrow> float64 option"
  Atoi :: "string \<Rightarrow> int option"
  time_Parse :: "string \<Rightarrow> string \<Rightarrow> Time option"

text \<open>
  A returned error or a run-time panic of the processor.
\<close>

datatype go_error =
  OpenFailed
  | ReadHeaderFailed
  | ProcessingFailed go_error
  | IndexOutOfRangePanic

section \<open>The data model (\<^verbatim>\<open>internal/models/models.go\<close>)\<close>

record Transaction =
  TransactionID :: string
  TransactionDate :: Time
  UserID :: string
  Country :: string
  Region :: string
  ProductID :: string
  ProductName :: string
  Category :: string
  Price :: float64
  Quantity :: int
  TotalPrice :: float64
  StockQuantity :: int
  AddedDate :: Time

record CountryRevenue =
  Country_CR :: string
  ProductName_CR :: string
  TotalRevenue_CR :: float64
  TransactionCount :: int

record ProductFrequency =
  ProductName_PF :: string
  PurchaseCount :: int
  CurrentStock :: int

record MonthlySales =
  Month :: string
  Year :: int
  TotalSales :: float64
  SalesVolume :: int

record RegionRevenue =
  Region_RR :: string
  TotalRevenue_RR :: float64
  ItemsSold :: int

record DashboardData =
  CountryRevenues :: "CountryRevenue list"
  TopProducts :: "ProductFrequency list"
  MonthlySales_DD :: "MonthlySales list"
  TopRegions :: "RegionRevenue list"
  LastUpdated :: Time
  ProcessingDuration :: int
  RecordCount :: int

text \<open>The zero value of a \<^verbatim>\<open>Transaction\<close> (\<^verbatim>\<open>var transaction models.Transaction\<close>).\<close>

definition Transaction_zero :: Transaction where
  "Transaction_zero =
     \<lparr>TransactionID = [], TransactionDate = Time_zero, UserID = [], Country = [],
      Region = [], ProductID = [], ProductName = [], Category = [], Price = Fin 0,
      Quantity = 0, TotalPrice = Fin 0, StockQuantity = 0, AddedDate = Time_zero\<rparr>"

section \<open>\<^verbatim>\<open>parseTransaction\<close>\<close>

text \<open>
  Every field is set by the same guarded statement
  \<^verbatim>\<open>if idx, ok := headerMap[name]; ok && idx < len(record) { ... record[idx] ... }\<close>.
  \<open>column\<close> is that statement: the guard does not test \<open>0 \<le> idx\<close>, so a negative
  index passes it and \<^verbatim>\<open>record[idx]\<close> panics.
\<close>

definition column ::
  "string list \<Rightarrow> (string \<rightharpoonup> int) \<Rightarrow> string \<Rightarrow> (string \<Rightarrow> Transaction \<Rightarrow> Transaction)
     \<Rightarrow> Transaction \<Rightarrow> go_error + Transaction" where
  "column record' headerMap name assign t =
     (case headerMap name of
        None \<Rightarrow> Inr t
      | Some idx \<Rightarrow>
          if idx < int (length record')
          then (if idx < 0 then Inl IndexOutOfRangePanic
                else Inr (assign (record' ! nat idx) t))
          else Inr t)"

text \<open>The statements of a function body, run in order until one panics.\<close>

fun statements :: "('a \<Rightarrow> go_error + 'a) list \<Rightarrow> 'a \<Rightarrow> go_error + 'a" where
  "statements [] t = Inr t"
| "statements (f # fs) t = (case f t of Inl e \<Rightarrow> Inl e | Inr t' \<Rightarrow> statements fs t')"

text \<open>The layouts tried for a date, and the loop that stops at the first that parses.\<close>

definition formats :: "string list" where
  "formats = [''2006-01-02'', ''2006-01-02 15:04:05'', ''01/02/2006'', ''01-02-2006'',
              ''2006/01/02'']"

fun parse_date :: "stdlib \<Rightarrow> string list \<Rightarrow> string \<Rightarrow> Time option" where
  "parse_date env [] dateStr = None"
| "parse_date env (format # rest) dateStr =
     (case time_Parse env format dateStr of
        Some date \<Rightarrow> Some date
      | None \<Rightarrow> parse_date env rest dateStr)"

definition parseTransaction ::
  "stdlib \<Rightarrow> string list \<Rightarrow> (string \<rightharpoonup> int) \<Rightarrow> go_error + (Transaction \<times> go_error option)" where
  "parseTransaction env record' headerMap =
     (case statements
        [column record' headerMap ''transaction_id''
           (\<lambda>s t. t\<lparr>TransactionID := TrimSpace env s\<rparr>),
         column record' headerMap ''user_id''
           (\<lambda>s t. t\<lparr>UserID := TrimSpace env s\<rparr>),
         column record' headerMap ''product_id''
           (\<lambda>s t. t\<lparr>ProductID := TrimSpace env s\<rparr>),
         column record' headerMap ''product_name''
           (\<lambda>s t. t\<lparr>ProductName := TrimSpace env s\<rparr>),
         column record' headerMap ''category''
           (\<lambda>s t. t\<lparr>Category := TrimSpace env s\<rparr>),
         column record' headerMap ''country''
           (\<lambda>s t. t\<lparr>Country := TrimSpace env s\<rparr>),
         column record' headerMap ''region''
           (\<lambda>s t. t\<lparr>Region := TrimSpace env s\<rparr>),
         column record' headerMap ''price''
           (\<lambda>s t. case ParseFloat env (TrimSpace env s) of
                     Some price \<Rightarrow> t\<lparr>Price := price\<rparr> | None \<Rightarrow> t),
         column record' headerMap ''total_price''
           (\<lambda>s t. case ParseFloat env (TrimSpace env s) of
                     Some totalPrice \<Rightarrow> t\<lparr>TotalPrice := totalPrice\<rparr> | None \<Rightarrow> t),
         column record' headerMap ''quantity''
           (\<lambda>s t. case Atoi env (TrimSpace env s) of
                     Some quantity \<Rightarrow> t\<lparr>Quantity := quantity\<rparr> | None \<Rightarrow> t),
         column record' headerMap ''stock_quantity''
           (\<lambda>s t. case Atoi env (TrimSpace env s) of
                     Some stock \<Rightarrow> t\<lparr>StockQuantity := stock\<rparr> | None \<Rightarrow> t),
         column record' headerMap ''transaction_date''
           (\<lambda>s t. case parse_date env formats (TrimSpace env s) of
                     Some date \<Rightarrow> t\<lparr>TransactionDate := date\<rparr> | None \<Rightarrow> t),
         column record' headerMap ''added_date''
           (\<lambda>s t. case parse_date env formats (TrimSpace env s) of
                     Some date \<Rightarrow> t\<lparr>AddedDate := date\<rparr> | None \<Rightarrow> t)]
        Transaction_zero of
        Inl e \<Rightarrow> Inl e
      | Inr transaction \<Rightarrow> Inr (transaction, None))"

section \<open>\<^verbatim>\<open>readCSV\<close>\<close>

text \<open>
  The file is the sequence of results that successive calls of \<^verbatim>\<open>reader.Read()\<close> give:
  a record (nil error) or a non-nil error other than \<^verbatim>\<open>io.EOF\<close>; after the last one every
  call gives \<^verbatim>\<open>io.EOF\<close>. The rows that \<^verbatim>\<open>Read\<close> returns with a nil error are the
  structurally valid ones. \<^verbatim>\<open>os.Open\<close> either fails or gives such a file.
\<close>

datatype read_result = Record "string list" | ReadError

datatype source = OpenError | Opened "read_result list"

text \<open>\<^verbatim>\<open>for i, header := range headers { headerMap[TrimSpace(ToLower(header))] = i }\<close>\<close>

definition header_index :: "stdlib \<Rightarrow> string list \<Rightarrow> (string \<rightharpoonup> int)" where
  "header_index env headers =
     foldl (\<lambda>headerMap (i, header). headerMap(TrimSpace env (ToLower env header) \<mapsto> int i))
       Map.empty (enumerate 0 headers)"

text \<open>
  The reading loop. The result is the list of transactions sent on \<^verbatim>\<open>transactionCh\<close>, in
  the order they are sent. A read error and a parse error are logged and skipped.
\<close>

fun read_records :: "stdlib \<Rightarrow> (string \<rightharpoonup> int) \<Rightarrow> read_result list \<Rightarrow> go_error + Transaction list" where
  "read_records env headerMap [] = Inr []"
| "read_records env headerMap (ReadError # rest) = read_records env headerMap rest"
| "read_records env headerMap (Record record' # rest) =
     (case parseTransaction env record' headerMap of
        Inl panic \<Rightarrow> Inl panic
      | Inr (transaction, Some err) \<Rightarrow> read_records env headerMap rest
      | Inr (transaction, None) \<Rightarrow>
          (case read_records env headerMap rest of
             Inl panic \<Rightarrow> Inl panic
           | Inr sent \<Rightarrow> Inr (transaction # sent)))"

definition readCSV :: "stdlib \<Rightarrow> read_result list \<Rightarrow> go_error + Transaction list" where
  "readCSV env reads =
     (case reads of
        [] \<Rightarrow> Inl ReadHeaderFailed
      | ReadError # rest \<Rightarrow> Inl ReadHeaderFailed
      | Record headers # rest \<Rightarrow> read_records env (header_index env headers) rest)"

section \<open>\<^verbatim>\<open>aggregateWorker\<close>\<close>

text \<open>
  A Go map from strings to pointers is a list of keys with their entries, each key once.
  The statement \<^verbatim>\<open>if e, exists := m[key]; exists { change *e } else { m[key] = &fresh }\<close>
  is \<open>upsert\<close>.
\<close>

type_synonym 'v gomap = "(string \<times> 'v) list"

fun upsert :: "string \<Rightarrow> ('v \<Rightarrow> 'v) \<Rightarrow> 'v \<Rightarrow> 'v gomap \<Rightarrow> 'v gomap" where
  "upsert key change fresh [] = [(key, fresh)]"
| "upsert key change fresh ((k, v) # m) =
     (if k = key then (k, change v) # m else (k, v) # upsert key change fresh m)"

record Maps =
  countryMap :: "CountryRevenue gomap"
  productMap :: "ProductFrequency gomap"
  monthMap :: "MonthlySales gomap"
  regionMap :: "RegionRevenue gomap"

definition Maps_empty :: Maps where
  "Maps_empty = \<lparr>countryMap = [], productMap = [], monthMap = [], regionMap = []\<rparr>"

text \<open>\<^verbatim>\<open>fmt.Sprintf("%s-%s", transaction.Country, transaction.ProductName)\<close>\<close>

definition countryKey :: "Transaction \<Rightarrow> string" where
  "countryKey transaction = Country transaction @ ''-'' @ ProductName transaction"

text \<open>\<^verbatim>\<open>fmt.Sprintf("%d-%02d", transaction.TransactionDate.Year(), transaction.TransactionDate.Month())\<close>\<close>

definition monthKey :: "Transaction \<Rightarrow> string" where
  "monthKey transaction =
     Sprintf_d (Time_Year (TransactionDate transaction)) @ ''-'' @
     Sprintf_02d (Month_number (Time_Month (TransactionDate transaction)))"

text \<open>The critical section of \<^verbatim>\<open>aggregateWorker\<close>: what one transaction does to the four maps.\<close>

definition aggregate_one :: "Transaction \<Rightarrow> Maps \<Rightarrow> Maps" where
  "aggregate_one transaction m =
     \<lparr>countryMap =
        upsert (countryKey transaction)
          (\<lambda>countryRev. countryRev
             \<lparr>TotalRevenue_CR := float64_add (TotalRevenue_CR countryRev) (TotalPrice transaction),
              TransactionCount := TransactionCount countryRev + 1\<rparr>)
          \<lparr>Country_CR = Country transaction, ProductName_CR = ProductName transaction,
           TotalRevenue_CR = TotalPrice transaction, TransactionCount = 1\<rparr>
          (countryMap m),
      productMap =
        upsert (ProductName transaction)
          (\<lambda>product.
             if StockQuantity transaction > 0
             then product\<lparr>PurchaseCount := PurchaseCount product + 1,
                          CurrentStock := StockQuantity transaction\<rparr>
             else product\<lparr>PurchaseCount := PurchaseCount product + 1\<rparr>)
          \<lparr>ProductName_PF = ProductName transaction, PurchaseCount = 1,
           CurrentStock = StockQuantity transaction\<rparr>
          (productMap m),
      monthMap =
        upsert (monthKey transaction)
          (\<lambda>monthlySales. monthlySales
             \<lparr>TotalSales := float64_add (TotalSales monthlySales) (TotalPrice transaction),
              SalesVolume := int_add (SalesVolume monthlySales) (Quantity transaction)\<rparr>)
          \<lparr>Month = Format_January (Time_Month (TransactionDate transaction)),
           Year = Time_Year (TransactionDate transaction),
           TotalSales = TotalPrice transaction, SalesVolume = Quantity transaction\<rparr>
          (monthMap m),
      regionMap =
        upsert (Region transaction)
          (\<lambda>region. region
             \<lparr>TotalRevenue_RR := float64_add (TotalRevenue_RR region) (TotalPrice transaction),
              ItemsSold := int_add (ItemsSold region) (Quantity transaction)\<rparr>)
          \<lparr>Region_RR = Region transaction, TotalRevenue_RR = TotalPrice transaction,
           ItemsSold = Quantity transaction\<rparr>
          (regionMap m)\<rparr>"

text \<open>
  The workers take the transactions off the channel one at a time and run the critical
  section under one mutex, so the run is a fold over the transactions in the order in
  which the critical sections are entered.
\<close>

fun aggregateWorker :: "Transaction list \<Rightarrow> Maps \<Rightarrow> Maps" where
  "aggregateWorker [] m = m"
| "aggregateWorker (transaction # transactionCh) m =
     aggregateWorker transactionCh (aggregate_one transaction m)"

section \<open>The goroutines of \<^verbatim>\<open>ProcessDataset\<close>\<close>

text \<open>
  \<^verbatim>\<open>ProcessDataset\<close> starts the workers, the reader and a goroutine that waits for the
  workers and closes \<^verbatim>\<open>done\<close>, and then waits in a \<^verbatim>\<open>select\<close> on \<^verbatim>\<open>errorCh\<close> and \<^verbatim>\<open>done\<close>.
  What follows is the synchronisation of these goroutines, without the data they pass:
  the aggregation itself is \<^verbatim>\<open>aggregateWorker\<close> above.
\<close>

datatype select_case = errorCh_case | done_case

datatype main_state = Before_select | Parked | Took select_case

datatype reader_state = Reading | Sent_error | Returned

text \<open>
  The state: where the reader is, the content of \<^verbatim>\<open>errorCh\<close> (a channel of capacity 1),
  whether \<^verbatim>\<open>transactionCh\<close> is closed, how many workers are still in their loop, whether
  \<^verbatim>\<open>done\<close> is closed, and where the caller is.
\<close>

record goroutines =
  reader :: reader_state
  errorCh :: "go_error option"
  transactionCh_closed :: bool
  workers :: nat
  done_closed :: bool
  main :: main_state

definition goroutines_start :: "nat \<Rightarrow> goroutines" where
  "goroutines_start numWorkers =
     \<lparr>reader = Reading, errorCh = None, transactionCh_closed = False, workers = numWorkers,
      done_closed = False, main = Before_select\<rparr>"

text \<open>
  One step of one goroutine; \<open>r\<close> is what \<^verbatim>\<open>readCSV\<close> returns. The reader sends its error
  and then, by its deferred call, closes \<^verbatim>\<open>transactionCh\<close>; without an error it only closes
  the channel, after the last record. A worker leaves \<^verbatim>\<open>for transaction := range\<close> once the
  channel is closed. \<^verbatim>\<open>wg.Wait()\<close> returns when no worker is left, and \<^verbatim>\<open>done\<close> is closed.
  The caller reaching \<^verbatim>\<open>select\<close> takes a case that is ready, either of them when both are,
  and is parked when none is; a parked caller takes the case that becomes ready first.
\<close>

inductive go_step :: "go_error + Transaction list \<Rightarrow> goroutines \<Rightarrow> goroutines \<Rightarrow> bool"
  for r :: "go_error + Transaction list" where
  reader_sends_error:
    "reader s = Reading \<Longrightarrow> r = Inl err \<Longrightarrow>
     go_step r s (s\<lparr>reader := Sent_error, errorCh := Some err,
                     main := (if main s = Parked then Took errorCh_case else main s)\<rparr>)"
| reader_closes_after_error:
    "reader s = Sent_error \<Longrightarrow>
     go_step r s (s\<lparr>reader := Returned, transactionCh_closed := True\<rparr>)"
| reader_closes:
    "reader s = Reading \<Longrightarrow> r = Inr sent \<Longrightarrow>
     go_step r s (s\<lparr>reader := Returned, transactionCh_closed := True\<rparr>)"
| worker_returns:
    "transactionCh_closed s \<Longrightarrow> 0 < workers s \<Longrightarrow>
     go_step r s (s\<lparr>workers := workers s - 1\<rparr>)"
| done_is_closed:
    "workers s = 0 \<Longrightarrow> \<not> done_closed s \<Longrightarrow>
     go_step r s (s\<lparr>done_closed := True,
                     main := (if main s = Parked then Took done_case else main s)\<rparr>)"
| select_takes_errorCh:
    "main s = Before_select \<Longrightarrow> errorCh s \<noteq> None \<Longrightarrow>
     go_step r s (s\<lparr>main := Took errorCh_case\<rparr>)"
| select_takes_done:
    "main s = Before_select \<Longrightarrow> done_closed s \<Longrightarrow>
     go_step r s (s\<lparr>main := Took done_case\<rparr>)"
| select_parks:
    "main s = Before_select \<Longrightarrow> errorCh s = None \<Longrightarrow> \<not> done_closed s \<Longrightarrow>
     go_step r s (s\<lparr>main := Parked\<rparr>)"

text \<open>The cases the \<^verbatim>\<open>select\<close> can take, over all schedules of \<open>numWorkers\<close> workers.\<close>

definition select_can_take :: "go_error + Transaction list \<Rightarrow> nat \<Rightarrow> select_case \<Rightarrow> bool" where
  "select_can_take r numWorkers c =
     (\<exists>s. (go_step r)\<^sup>*\<^sup>* (goroutines_start numWorkers) s \<and> main s = Took c)"

section \<open>Sorting and publishing\<close>

text \<open>
  \<^verbatim>\<open>sort.Slice\<close> of the standard library on a slice of at most 12 elements is the insertion
  sort below: the element at \<open>i\<close> moves left while \<^verbatim>\<open>less(data[j], data[j-1])\<close>. On longer
  slices the library sorts by another method, which can order equal keys differently. The
  theorems below use of the sort only that it rearranges the slice and, for a comparison
  that is a strict weak order, puts it in order; the examples sort at most three entries.
\<close>

definition insertion_step :: "('a \<Rightarrow> 'a \<Rightarrow> bool) \<Rightarrow> 'a list \<Rightarrow> 'a \<Rightarrow> 'a list" where
  "insertion_step less' data x =
     rev (dropWhile (less' x) (rev data)) @ x # rev (takeWhile (less' x) (rev data))"

definition sort_Slice :: "('a \<Rightarrow> 'a \<Rightarrow> bool) \<Rightarrow> 'a list \<Rightarrow> 'a list" where
  "sort_Slice less' data = foldl (insertion_step less') [] data"

text \<open>
  What a run does not fix: which case \<^verbatim>\<open>select\<close> takes when the reader has failed (both
  cases can be taken, lemmas \<open>error_select_can_take_errorCh\<close> and
  \<open>error_select_can_take_done\<close>), the order in which the workers enter the critical section, the order in which
  \<^verbatim>\<open>range\<close> goes through each map, and the clock.
\<close>

record runtime =
  select_takes :: select_case
  worker_order :: "Transaction list \<Rightarrow> Transaction list"
  range_countryMap :: "CountryRevenue list \<Rightarrow> CountryRevenue list"
  range_productMap :: "ProductFrequency list \<Rightarrow> ProductFrequency list"
  range_monthMap :: "MonthlySales list \<Rightarrow> MonthlySales list"
  range_regionMap :: "RegionRevenue list \<Rightarrow> RegionRevenue list"
  time_Now :: Time
  time_Since :: int

text \<open>Each order is a rearrangement: nothing is lost and nothing is taken twice.\<close>

definition runtime_ok :: "runtime \<Rightarrow> bool" where
  "runtime_ok rt =
     ((\<forall>xs. mset (worker_order rt xs) = mset xs) \<and>
      (\<forall>xs. mset (range_countryMap rt xs) = mset xs) \<and>
      (\<forall>xs. mset (range_productMap rt xs) = mset xs) \<and>
      (\<forall>xs. mset (range_monthMap rt xs) = mset xs) \<and>
      (\<forall>xs. mset (range_regionMap rt xs) = mset xs))"

definition sortCountryRevenues :: "runtime \<Rightarrow> CountryRevenue gomap \<Rightarrow> CountryRevenue list" where
  "sortCountryRevenues rt m =
     sort_Slice (\<lambda>a b. float64_gt (TotalRevenue_CR a) (TotalRevenue_CR b))
       (range_countryMap rt (map snd m))"

definition sortTopProducts :: "runtime \<Rightarrow> ProductFrequency gomap \<Rightarrow> nat \<Rightarrow> ProductFrequency list" where
  "sortTopProducts rt m limit =
     (let products = sort_Slice (\<lambda>a b. PurchaseCount a > PurchaseCount b)
                       (range_productMap rt (map snd m))
      in if length products > limit then take limit products else products)"

definition sortMonthlySales :: "runtime \<Rightarrow> MonthlySales gomap \<Rightarrow> MonthlySales list" where
  "sortMonthlySales rt m =
     sort_Slice (\<lambda>a b. if Year a \<noteq> Year b then Year a > Year b
                        else float64_gt (TotalSales a) (TotalSales b))
       (range_monthMap rt (map snd m))"

definition sortTopRegions :: "runtime \<Rightarrow> RegionRevenue gomap \<Rightarrow> nat \<Rightarrow> RegionRevenue list" where
  "sortTopRegions rt m limit =
     (let regions = sort_Slice (\<lambda>a b. float64_gt (TotalRevenue_RR a) (TotalRevenue_RR b))
                      (range_regionMap rt (map snd m))
      in if length regions > limit then take limit regions else regions)"

text \<open>The assignments to \<^verbatim>\<open>p.dashboardData\<close> under the write lock.\<close>

definition publish :: "runtime \<Rightarrow> Maps \<Rightarrow> DashboardData \<Rightarrow> DashboardData" where
  "publish rt m dashboardData =
     dashboardData
       \<lparr>CountryRevenues := sortCountryRevenues rt (countryMap m),
        TopProducts := sortTopProducts rt (productMap m) 20,
        MonthlySales_DD := sortMonthlySales rt (monthMap m),
        TopRegions := sortTopRegions rt (regionMap m) 30,
        LastUpdated := time_Now rt,
        ProcessingDuration := time_Since rt,
        RecordCount := int (length (countryMap m))\<rparr>"

text \<open>\<^verbatim>\<open>New\<close>: the processor before any run.\<close>

definition New :: DashboardData where
  "New = \<lparr>CountryRevenues = [], TopProducts = [], MonthlySales_DD = [], TopRegions = [],
          LastUpdated = Time_zero, ProcessingDuration = 0, RecordCount = 0\<rparr>"

section \<open>\<^verbatim>\<open>ProcessDataset\<close>\<close>

text \<open>
  The result is the returned error (\<open>None\<close> for nil) and the processor's dashboard data
  after the call. When \<^verbatim>\<open>readCSV\<close> returns an error, the reader goroutine puts it on
  \<^verbatim>\<open>errorCh\<close> and then closes \<^verbatim>\<open>transactionCh\<close>; the workers leave their loops and \<^verbatim>\<open>done\<close>
  is closed. A \<^verbatim>\<open>select\<close> that finds both channels ready takes either case. When
  \<^verbatim>\<open>readCSV\<close> returns nil the \<^verbatim>\<open>select\<close> can only take \<^verbatim>\<open>done\<close> (lemma
  \<open>success_select_takes_done\<close>), after every worker has returned (lemma
  \<open>go_step_invariant\<close>).
\<close>

definition ProcessDataset ::
  "stdlib \<Rightarrow> runtime \<Rightarrow> source \<Rightarrow> DashboardData \<Rightarrow> go_error option \<times> DashboardData" where
  "ProcessDataset env rt file dashboardData =
     (case file of
        OpenError \<Rightarrow> (Some OpenFailed, dashboardData)
      | Opened reads \<Rightarrow>
          (case readCSV env reads of
             Inl IndexOutOfRangePanic \<Rightarrow> (Some IndexOutOfRangePanic, dashboardData)
           | Inl err \<Rightarrow>
               if select_takes rt = done_case
               then (None, publish rt (aggregateWorker [] Maps_empty) dashboardData)
               else (Some (ProcessingFailed err), dashboardData)
           | Inr sent \<Rightarrow>
               (None, publish rt (aggregateWorker (worker_order rt sent) Maps_empty)
                        dashboardData)))"

section \<open>Notions the statements below use\<close>

text \<open>
  The transactions that the reader put on the channel: none when the file cannot be opened
  or the header cannot be read.
\<close>

definition sent_records :: "stdlib \<Rightarrow> source \<Rightarrow> Transaction list" where
  "sent_records env file =
     (case file of
        OpenError \<Rightarrow> []
      | Opened reads \<Rightarrow> (case readCSV env reads of Inl err \<Rightarrow> [] | Inr sent \<Rightarrow> sent))"

text \<open>The rows after the header that \<^verbatim>\<open>reader.Read()\<close> returned with a nil error.\<close>

fun valid_rows :: "read_result list \<Rightarrow> string list list" where
  "valid_rows [] = []"
| "valid_rows (Record record' # rest) = record' # valid_rows rest"
| "valid_rows (ReadError # rest) = valid_rows rest"

text \<open>
  The cell of a row under a column name: none when the column is missing from the header
  map or when its index is past the end of the row.
\<close>

definition cell :: "string list \<Rightarrow> (string \<rightharpoonup> int) \<Rightarrow> string \<Rightarrow> string option" where
  "cell record' headerMap name =
     (case headerMap name of
        None \<Rightarrow> None
      | Some idx \<Rightarrow> if idx < int (length record') then Some (record' ! nat idx) else None)"

text \<open>
  What the specification says of each kind of field: a text field is the trimmed cell; a
  numeric field is the number parsed from the trimmed cell, and zero if parsing fails; a
  date is parsed with the five layouts in the order given, the first that succeeds wins,
  and it stays at the zero value if none does. A field without a cell keeps its zero value.
\<close>

definition spec_text :: "stdlib \<Rightarrow> string option \<Rightarrow> string" where
  "spec_text env c = (case c of None \<Rightarrow> [] | Some s \<Rightarrow> TrimSpace env s)"

definition spec_float :: "stdlib \<Rightarrow> string option \<Rightarrow> float64" where
  "spec_float env c =
     (case c of
        None \<Rightarrow> Fin 0
      | Some s \<Rightarrow> (case ParseFloat env (TrimSpace env s) of None \<Rightarrow> Fin 0 | Some v \<Rightarrow> v))"

definition spec_int :: "stdlib \<Rightarrow> string option \<Rightarrow> int" where
  "spec_int env c =
     (case c of
        None \<Rightarrow> 0
      | Some s \<Rightarrow> (case Atoi env (TrimSpace env s) of None \<Rightarrow> 0 | Some v \<Rightarrow> v))"

definition spec_date :: "stdlib \<Rightarrow> string option \<Rightarrow> Time" where
  "spec_date env c =
     (case c of
        None \<Rightarrow> Time_zero
      | Some s \<Rightarrow>
         (case time_Parse env ''2006-01-02'' (TrimSpace env s) of Some d \<Rightarrow> d | None \<Rightarrow>
         (case time_Parse env ''2006-01-02 15:04:05'' (TrimSpace env s) of Some d \<Rightarrow> d | None \<Rightarrow>
         (case time_Parse env ''01/02/2006'' (TrimSpace env s) of Some d \<Rightarrow> d | None \<Rightarrow>
         (case time_Parse env ''01-02-2006'' (TrimSpace env s) of Some d \<Rightarrow> d | None \<Rightarrow>
         (case time_Parse env ''2006/01/02'' (TrimSpace env s) of Some d \<Rightarrow> d | None \<Rightarrow>
            Time_zero))))))"

definition spec_parse :: "stdlib \<Rightarrow> string list \<Rightarrow> (string \<rightharpoonup> int) \<Rightarrow> Transaction" where
  "spec_parse env record' headerMap =
     \<lparr>TransactionID = spec_text env (cell record' headerMap ''transaction_id''),
      TransactionDate = spec_date env (cell record' headerMap ''transaction_date''),
      UserID = spec_text env (cell record' headerMap ''user_id''),
      Country = spec_text env (cell record' headerMap ''country''),
      Region = spec_text env (cell record' headerMap ''region''),
      ProductID = spec_text env (cell record' headerMap ''product_id''),
      ProductName = spec_text env (cell record' headerMap ''product_name''),
      Category = spec_text env (cell record' headerMap ''category''),
      Price = spec_float env (cell record' headerMap ''price''),
      Quantity = spec_int env (cell record' headerMap ''quantity''),
      TotalPrice = spec_float env (cell record' headerMap ''total_price''),
      StockQuantity = spec_int env (cell record' headerMap ''stock_quantity''),
      AddedDate = spec_date env (cell record' headerMap ''added_date'')\<rparr>"

text \<open>A value, or the one kept when there is none.\<close>

definition or_keep :: "'a \<Rightarrow> 'a option \<Rightarrow> 'a" where
  "or_keep d c = (case c of None \<Rightarrow> d | Some v \<Rightarrow> v)"

text \<open>
  The stock of a product after its records, given the stock reading of the first record
  and the readings of the later ones: the last later reading above zero, and the first
  reading if there is none.
\<close>

definition spec_current_stock :: "int \<Rightarrow> int list \<Rightarrow> int" where
  "spec_current_stock first later =
     (case filter (\<lambda>s. 0 < s) later of [] \<Rightarrow> first | p # ps \<Rightarrow> last (p # ps))"

text \<open>The same with "non-zero" in place of "above zero", as the specification words it.\<close>

definition claimed_current_stock :: "int \<Rightarrow> int list \<Rightarrow> int" where
  "claimed_current_stock first later =
     (case filter (\<lambda>s. s \<noteq> 0) later of [] \<Rightarrow> first | p # ps \<Rightarrow> last (p # ps))"

text \<open>
  The entry of one key after a list of transactions with that key: the first inserts,
  each later one changes.
\<close>

fun entry_after :: "('t \<Rightarrow> 'v \<Rightarrow> 'v) \<Rightarrow> ('t \<Rightarrow> 'v) \<Rightarrow> 't list \<Rightarrow> 'v option \<Rightarrow> 'v option" where
  "entry_after change fresh [] e = e"
| "entry_after change fresh (t # ts) e =
     entry_after change fresh ts (Some (case e of None \<Rightarrow> fresh t | Some v \<Rightarrow> change t v))"

fun upsert_all ::
  "('t \<Rightarrow> string) \<Rightarrow> ('t \<Rightarrow> 'v \<Rightarrow> 'v) \<Rightarrow> ('t \<Rightarrow> 'v) \<Rightarrow> 't list \<Rightarrow> 'v gomap \<Rightarrow> 'v gomap" where
  "upsert_all key change fresh [] m = m"
| "upsert_all key change fresh (t # ts) m =
     upsert_all key change fresh ts (upsert (key t) (change t) (fresh t) m)"

text \<open>The order of the monthly view: year descending, then total sales descending.\<close>

definition monthly_order :: "MonthlySales \<Rightarrow> MonthlySales \<Rightarrow> bool" where
  "monthly_order a b =
     (Year a > Year b \<or> (Year a = Year b \<and> float64_ge (TotalSales a) (TotalSales b)))"

section \<open>An instance of the library and of a run, for the examples\<close>

text \<open>
  The examples need the library functions at a few strings. The instance below agrees
  with Go on the strings the examples give it: \<^verbatim>\<open>TrimSpace\<close> on strings whose only white
  space is the blank, \<^verbatim>\<open>ToLower\<close> on ASCII, \<^verbatim>\<open>ParseFloat\<close> and \<^verbatim>\<open>Atoi\<close> on strings of
  at most 15 decimal digits (\<^verbatim>\<open>Atoi\<close> also after a minus sign), \<^verbatim>\<open>ParseFloat\<close> on \<^verbatim>\<open>NaN\<close>, \<^verbatim>\<open>abc\<close>
  and \<^verbatim>\<open>n/a\<close>, and \<^verbatim>\<open>time.Parse\<close> on the dates \<^verbatim>\<open>2024-01-15\<close> and \<^verbatim>\<open>03/15/2024\<close> and on
  \<^verbatim>\<open>never\<close>, which is a date in none of the five layouts.
\<close>

definition sample_TrimSpace :: "string \<Rightarrow> string" where
  "sample_TrimSpace s =
     rev (dropWhile (\<lambda>c. c = CHR '' '') (rev (dropWhile (\<lambda>c. c = CHR '' '') s)))"

definition sample_ToLower :: "string \<Rightarrow> string" where
  "sample_ToLower s =
     map (\<lambda>c. case map_of (zip ''ABCDEFGHIJKLMNOPQRSTUVWXYZ'' ''abcdefghijklmnopqrstuvwxyz'') c of
                 None \<Rightarrow> c | Some l \<Rightarrow> l) s"

fun sample_digits :: "nat \<Rightarrow> string \<Rightarrow> nat option" where
  "sample_digits acc [] = Some acc"
| "sample_digits acc (c # cs) =
     (case map_of (zip ''0123456789'' [0, 1, 2, 3, 4, 5, 6, 7, 8, 9]) c of
        None \<Rightarrow> None
      | Some d \<Rightarrow> sample_digits (10 * acc + d) cs)"

definition sample_ParseFloat :: "string \<Rightarrow> float64 option" where
  "sample_ParseFloat s =
     (if s = ''NaN'' then Some NaN
      else if s = [] then None
      else map_option (\<lambda>n. Fin (real n)) (sample_digits 0 s))"

definition sample_Atoi :: "string \<Rightarrow> int option" where
  "sample_Atoi s =
     (case s of
        [] \<Rightarrow> None
      | c # cs \<Rightarrow>
          if c = CHR ''-''
          then (if cs = [] then None else map_option (\<lambda>n. - int n) (sample_digits 0 cs))
          else map_option int (sample_digits 0 s))"

definition sample_time_Parse :: "string \<Rightarrow> string \<Rightarrow> Time option" where
  "sample_time_Parse layout value =
     (if layout = ''2006-01-02'' \<and> value = ''2024-01-15''
      then Some \<lparr>Time_Year = 2024, Time_Month = January, Time_Day = 15, Time_Nanosecond = 0\<rparr>
      else if layout = ''01/02/2006'' \<and> value = ''03/15/2024''
      then Some \<lparr>Time_Year = 2024, Time_Month = March, Time_Day = 15, Time_Nanosecond = 0\<rparr>
      else None)"

definition sample_stdlib :: stdlib where
  "sample_stdlib =
     \<lparr>TrimSpace = sample_TrimSpace, ToLower = sample_ToLower, ParseFloat = sample_ParseFloat,
      Atoi = sample_Atoi, time_Parse = sample_time_Parse\<rparr>"

text \<open>
  A run on one worker in which \<^verbatim>\<open>range\<close> goes through every map in the order of insertion
  and \<^verbatim>\<open>select\<close> takes \<^verbatim>\<open>errorCh\<close>; and the same run with \<^verbatim>\<open>select\<close> taking \<^verbatim>\<open>done\<close>.
\<close>

definition sample_runtime :: runtime where
  "sample_runtime =
     \<lparr>select_takes = errorCh_case, worker_order = (\<lambda>xs. xs), range_countryMap = (\<lambda>xs. xs),
      range_productMap = (\<lambda>xs. xs), range_monthMap = (\<lambda>xs. xs),
      range_regionMap = (\<lambda>xs. xs),
      time_Now = \<lparr>Time_Year = 2024, Time_Month = March, Time_Day = 16, Time_Nanosecond = 0\<rparr>,
      time_Since = 1000000\<rparr>"

definition sample_runtime_done :: runtime where
  "sample_runtime_done = sample_runtime\<lparr>select_takes := done_case\<rparr>"

text \<open>
  A run on two workers in which the worker that took the first row from the channel
  enters the critical section last: the other worker takes and aggregates every other row
  before.
\<close>

definition sample_runtime_late :: runtime where
  "sample_runtime_late = sample_runtime\<lparr>worker_order := rotate1\<rparr>"

text \<open>
  A file of three valid rows and one that the reader rejects; a file with a total price
  that \<^verbatim>\<open>ParseFloat\<close> reads as NaN; and a file with the stock readings 100, 0 and 150 of
  one product.
\<close>

definition sample_file :: "read_result list" where
  "sample_file =
     [Record [''Country'', ''Region'', ''product_name'', ''quantity'', ''total_price'',
              ''stock_quantity'', ''transaction_date''],
      Record [''USA'', ''West'', ''Laptop'', ''2'', ''1000'', ''100'', ''2024-01-15''],
      ReadError,
      Record [''USA'', ''West'', ''Laptop'', ''1'', ''500'', ''0'', ''03/15/2024''],
      Record [''UK'', ''London'', ''Phone'', ''1'', ''800'', ''150'', ''never'']]"

definition sample_file_NaN :: "read_result list" where
  "sample_file_NaN =
     [Record [''country'', ''product_name'', ''total_price''],
      Record [''US'', ''Pen'', ''1''],
      Record [''UK'', ''Ink'', ''NaN''],
      Record [''DE'', ''Pad'', ''2'']]"

definition sample_file_stock :: "read_result list" where
  "sample_file_stock =
     [Record [''product_name'', ''stock_quantity''],
      Record [''Pen'', ''100''],
      Record [''Pen'', ''0''],
      Record [''Pen'', ''150'']]"

section \<open>Lemmas\<close>

subsection \<open>Rounding\<close>

text \<open>An integer is its own rounding.\<close>

lemma round_to_even_int: "round_to_even (of_int k) = k"
  by (simp add: round_to_even_def)

lemma floor_log2_bounds:
  fixes x :: real
  assumes "0 < x"
  shows "(2::real) powi \<lfloor>log 2 x\<rfloor> \<le> x" and "x < (2::real) powi (\<lfloor>log 2 x\<rfloor> + 1)"
proof -
  have "(2::real) powi \<lfloor>log 2 x\<rfloor> = 2 powr (of_int \<lfloor>log 2 x\<rfloor>)"
    by (simp add: powr_real_of_int')
  also have "\<dots> \<le> 2 powr (log 2 x)"
    by (simp add: powr_mono)
  also have "\<dots> = x" using assms by simp
  finally show "(2::real) powi \<lfloor>log 2 x\<rfloor> \<le> x" .
  have "x = 2 powr (log 2 x)" using assms by simp
  also have "\<dots> < 2 powr (of_int (\<lfloor>log 2 x\<rfloor> + 1))"
    by (rule powr_less_mono) (linarith, simp)
  also have "\<dots> = (2::real) powi (\<lfloor>log 2 x\<rfloor> + 1)"
    by (rule powr_real_of_int') simp_all
  finally show "x < (2::real) powi (\<lfloor>log 2 x\<rfloor> + 1)" .
qed


lemma float64_ulp_pos: "0 < float64_ulp x"
  by (simp add: float64_ulp_def)

text \<open>
  A number that is a multiple of the distance around it, and below \<^verbatim>\<open>2^1024\<close>, is a
  \<^verbatim>\<open>float64\<close>: rounding leaves it.
\<close>

lemma float64_round_exact:
  assumes "x / float64_ulp x = of_int m" and "\<bar>x\<bar> < 2 ^ 1024"
  shows "float64_round x = Fin x"
proof (cases "x = 0")
  case True
  then show ?thesis by (simp add: float64_round_def)
next
  case False
  have "of_int (round_to_even (x / float64_ulp x)) * float64_ulp x = x / float64_ulp x * float64_ulp x"
    by (simp only: assms(1) round_to_even_int)
  also have "\<dots> = x" using float64_ulp_pos [of x] by simp
  finally have y: "of_int (round_to_even (x / float64_ulp x)) * float64_ulp x = x" .
  from assms(2) have "\<not> 2 ^ 1024 \<le> x" "\<not> x \<le> - (2 ^ 1024)" by linarith+
  with False y show ?thesis by (simp add: float64_round_def Let_def)
qed

text \<open>So is every integer up to \<^verbatim>\<open>2^53\<close>; the sums of the examples are of this kind.\<close>

lemma float64_round_int:
  assumes "\<bar>k\<bar> \<le> 2 ^ 53"
  shows "float64_round (of_int k) = Fin (of_int k)"
proof (cases "k = 0")
  case True
  then show ?thesis by (simp add: float64_round_def)
next
  case False
  define x :: real where "x = of_int k"
  define e where "e = \<lfloor>log 2 \<bar>x\<bar>\<rfloor>"
  from False have one: "1 \<le> \<bar>x\<bar>" unfolding x_def by (simp add: of_int_abs [symmetric] del: of_int_abs)
  then have pos: "0 < \<bar>x\<bar>" by linarith
  from one have "0 \<le> log 2 \<bar>x\<bar>" by simp
  then have e0: "0 \<le> e" unfolding e_def by simp
  have low: "(2::real) powi e \<le> \<bar>x\<bar>"
    unfolding e_def using pos by (rule floor_log2_bounds)
  from assms have top: "\<bar>x\<bar> \<le> 2 ^ 53"
    unfolding x_def by (simp add: of_int_abs [symmetric] del: of_int_abs)
  have e53: "e \<le> 53"
  proof (rule ccontr)
    assume "\<not> e \<le> 53"
    then have "54 \<le> e" by simp
    then have "(2::real) powi 54 \<le> 2 powi e" by (intro power_int_increasing) simp_all
    moreover have "(2::real) ^ 53 < 2 powi 54" by simp
    ultimately show False using low top by linarith
  qed
  have ulp: "float64_ulp x = 2 powi (e - 52)"
    using e0 by (simp add: float64_ulp_def e_def max_def)
  have "\<exists>m. x / float64_ulp x = of_int m"
  proof (cases "e \<le> 52")
    case True
    then have "(2::real) powi (52 - e) = 2 ^ nat (52 - e)"
      by (simp add: power_int_def)
    moreover have "x / 2 powi (e - 52) = x * 2 powi (52 - e)"
      by (simp add: power_int_diff field_simps)
    ultimately have "x / float64_ulp x = x * 2 ^ nat (52 - e)"
      by (simp only: ulp)
    then have "x / float64_ulp x = of_int (k * 2 ^ nat (52 - e))"
      by (simp add: x_def)
    then show ?thesis ..
  next
    case False
    with e53 have e: "e = 53" by simp
    with low have "2 ^ 53 \<le> \<bar>x\<bar>" by simp
    with top have "\<bar>x\<bar> = 2 ^ 53" by simp
    then have "\<bar>k\<bar> = 2 ^ 53" unfolding x_def
      by (simp add: of_int_abs [symmetric] del: of_int_abs)
    then have "k = 2 ^ 53 \<or> k = - (2 ^ 53)" by linarith
    moreover have "float64_ulp x = 2" by (simp add: ulp e)
    ultimately have "x / float64_ulp x = of_int (k div 2)"
      by (auto simp add: x_def)
    then show ?thesis ..
  qed
  then obtain m where m: "x / float64_ulp x = of_int m" ..
  from top have "\<bar>x\<bar> < 2 ^ 1024" by (rule le_less_trans) simp
  with m have "float64_round x = Fin x" by (rule float64_round_exact)
  then show ?thesis by (simp only: x_def)
qed

lemma float64_add_integers:
  assumes "a \<in> \<int>" and "b \<in> \<int>" and "\<bar>a + b\<bar> \<le> 2 ^ 53"
  shows "float64_add (Fin a) (Fin b) = Fin (a + b)"
proof -
  from assms(1,2) obtain i j where a: "a = of_int i" and b: "b = of_int j"
    by (auto elim!: Ints_cases)
  from assms(3) have "\<bar>i + j\<bar> \<le> 2 ^ 53"
    unfolding a b by (simp add: of_int_abs [symmetric] of_int_add [symmetric] del: of_int_abs of_int_add)
  then have "float64_round (of_int (i + j)) = Fin (of_int (i + j))"
    by (rule float64_round_int)
  then show ?thesis by (simp add: a b)
qed

lemma round_to_even_ge:
  assumes "of_int n \<le> x"
  shows "n \<le> round_to_even x"
proof -
  from assms have "n \<le> \<lfloor>x\<rfloor>" by (simp add: le_floor_iff)
  moreover have "\<lfloor>x\<rfloor> \<le> round_to_even x" by (simp add: round_to_even_def Let_def)
  ultimately show ?thesis by simp
qed

text \<open>A sum that reaches \<^verbatim>\<open>2^1024\<close> is an infinity.\<close>

lemma float64_round_overflow:
  assumes "2 ^ 1024 \<le> x"
  shows "float64_round x = PosInf"
proof -
  define e where "e = \<lfloor>log 2 \<bar>x\<bar>\<rfloor>"
  from assms have pos: "0 < x" by (rule less_le_trans [rotated]) simp
  then have ax: "\<bar>x\<bar> = x" by simp
  have "log 2 (2 ^ 1024) \<le> log 2 x"
    using assms pos by (subst log_le_cancel_iff) simp_all
  moreover have "log 2 ((2::real) ^ 1024) = 1024"
    by (subst log_nat_power) simp_all
  ultimately have "1024 \<le> log 2 x" by simp
  then have e: "1024 \<le> e" unfolding e_def ax by (simp add: le_floor_iff)
  have ulp: "float64_ulp x = 2 powi (e - 52)"
    using e by (simp add: float64_ulp_def e_def max_def)
  have low: "(2::real) powi e \<le> x"
    using floor_log2_bounds(1) [of "\<bar>x\<bar>"] pos by (simp add: e_def)
  have "(2::real) ^ 52 * 2 powi (e - 52) = 2 powi e"
    by (simp add: power_int_diff)
  with low have "2 ^ 52 \<le> x / 2 powi (e - 52)"
    by (simp add: pos_le_divide_eq)
  then have "of_int (2 ^ 52) \<le> x / float64_ulp x" by (simp add: ulp)
  then have "2 ^ 52 \<le> round_to_even (x / float64_ulp x)" by (rule round_to_even_ge)
  then have "(2::real) ^ 52 \<le> of_int (round_to_even (x / float64_ulp x))"
    by (metis of_int_le_iff of_int_numeral of_int_power)
  then have "2 ^ 52 * 2 powi (e - 52) \<le> of_int (round_to_even (x / float64_ulp x)) * float64_ulp x"
    unfolding ulp by (rule mult_right_mono) simp
  moreover have "(2::real) ^ 52 * 2 powi (e - 52) = 2 powi e"
    by (simp add: power_int_diff)
  moreover have "(2::real) powi 1024 \<le> 2 powi e"
    using e by (intro power_int_increasing) simp_all
  moreover have "(2::real) powi 1024 = 2 ^ 1024" by simp
  ultimately have "2 ^ 1024 \<le> of_int (round_to_even (x / float64_ulp x)) * float64_ulp x"
    by linarith
  with pos show ?thesis by (simp add: float64_round_def Let_def)
qed

lemma float64_round_numeral:
  "(numeral n :: int) \<le> 2 ^ 53 \<Longrightarrow> float64_round (numeral n) = Fin (numeral n)"
  using float64_round_int [of "numeral n"] by simp

text \<open>
  Two finite totals can add up to an infinity, and an infinity and its opposite to NaN:
  a NaN total can come from rows none of which is NaN.
\<close>

lemma float64_add_overflows:
  "float64_add (float64_add (Fin (2 ^ 1023)) (Fin (2 ^ 1023))) NegInf = NaN"
proof -
  have "(2::real) ^ 1024 \<le> 2 ^ 1023 + 2 ^ 1023" by simp
  then have "float64_round (2 ^ 1023 + 2 ^ 1023) = PosInf" by (rule float64_round_overflow)
  then show ?thesis by simp
qed

subsection \<open>The parser\<close>

lemma column_cell:
  assumes "\<forall>name idx. headerMap name = Some idx \<longrightarrow> 0 \<le> idx"
  shows "column record' headerMap name assign t =
           Inr (case cell record' headerMap name of None \<Rightarrow> t | Some s \<Rightarrow> assign s t)"
proof (cases "headerMap name")
  case None
  then show ?thesis by (simp add: column_def cell_def)
next
  case (Some idx)
  with assms have "0 \<le> idx" by blast
  with Some show ?thesis by (simp add: column_def cell_def)
qed

lemma assign_as_update:
  "(case c of None \<Rightarrow> t | Some s \<Rightarrow> t\<lparr>TransactionID := f s\<rparr>)
     = t\<lparr>TransactionID := or_keep (TransactionID t) (map_option f c)\<rparr>"
  "(case c of None \<Rightarrow> t | Some s \<Rightarrow> t\<lparr>UserID := f s\<rparr>)
     = t\<lparr>UserID := or_keep (UserID t) (map_option f c)\<rparr>"
  "(case c of None \<Rightarrow> t | Some s \<Rightarrow> t\<lparr>ProductID := f s\<rparr>)
     = t\<lparr>ProductID := or_keep (ProductID t) (map_option f c)\<rparr>"
  "(case c of None \<Rightarrow> t | Some s \<Rightarrow> t\<lparr>ProductName := f s\<rparr>)
     = t\<lparr>ProductName := or_keep (ProductName t) (map_option f c)\<rparr>"
  "(case c of None \<Rightarrow> t | Some s \<Rightarrow> t\<lparr>Category := f s\<rparr>)
     = t\<lparr>Category := or_keep (Category t) (map_option f c)\<rparr>"
  "(case c of None \<Rightarrow> t | Some s \<Rightarrow> t\<lparr>Country := f s\<rparr>)
     = t\<lparr>Country := or_keep (Country t) (map_option f c)\<rparr>"
  "(case c of None \<Rightarrow> t | Some s \<Rightarrow> t\<lparr>Region := f s\<rparr>)
     = t\<lparr>Region := or_keep (Region t) (map_option f c)\<rparr>"
  "(case c of None \<Rightarrow> t | Some s \<Rightarrow> (case gPrice s of Some v \<Rightarrow> t\<lparr>Price := v\<rparr> | None \<Rightarrow> t))
     = t\<lparr>Price := or_keep (Price t) (Option.bind c gPrice)\<rparr>"
  "(case c of None \<Rightarrow> t | Some s \<Rightarrow> (case gTotalPrice s of Some v \<Rightarrow> t\<lparr>TotalPrice := v\<rparr> | None \<Rightarrow> t))
     = t\<lparr>TotalPrice := or_keep (TotalPrice t) (Option.bind c gTotalPrice)\<rparr>"
  "(case c of None \<Rightarrow> t | Some s \<Rightarrow> (case gQuantity s of Some v \<Rightarrow> t\<lparr>Quantity := v\<rparr> | None \<Rightarrow> t))
     = t\<lparr>Quantity := or_keep (Quantity t) (Option.bind c gQuantity)\<rparr>"
  "(case c of None \<Rightarrow> t | Some s \<Rightarrow> (case gStockQuantity s of Some v \<Rightarrow> t\<lparr>StockQuantity := v\<rparr> | None \<Rightarrow> t))
     = t\<lparr>StockQuantity := or_keep (StockQuantity t) (Option.bind c gStockQuantity)\<rparr>"
  "(case c of None \<Rightarrow> t | Some s \<Rightarrow> (case gTransactionDate s of Some v \<Rightarrow> t\<lparr>TransactionDate := v\<rparr> | None \<Rightarrow> t))
     = t\<lparr>TransactionDate := or_keep (TransactionDate t) (Option.bind c gTransactionDate)\<rparr>"
  "(case c of None \<Rightarrow> t | Some s \<Rightarrow> (case gAddedDate s of Some v \<Rightarrow> t\<lparr>AddedDate := v\<rparr> | None \<Rightarrow> t))
     = t\<lparr>AddedDate := or_keep (AddedDate t) (Option.bind c gAddedDate)\<rparr>"
  by (simp_all add: or_keep_def split: option.splits)

lemma spec_as_or_keep:
  "spec_text env c = or_keep [] (map_option (TrimSpace env) c)"
  "spec_float env c = or_keep (Fin 0) (Option.bind c (\<lambda>s. ParseFloat env (TrimSpace env s)))"
  "spec_int env c = or_keep 0 (Option.bind c (\<lambda>s. Atoi env (TrimSpace env s)))"
  "spec_date env c = or_keep Time_zero (Option.bind c (\<lambda>s. parse_date env formats (TrimSpace env s)))"
  by (simp_all add: or_keep_def spec_text_def spec_float_def spec_int_def spec_date_def formats_def
      split: option.splits)

lemma parseTransaction_spec_parse:
  assumes "\<forall>name idx. headerMap name = Some idx \<longrightarrow> 0 \<le> idx"
  shows "parseTransaction env record' headerMap = Inr (spec_parse env record' headerMap, None)"
  unfolding parseTransaction_def spec_parse_def
  by (simp add: column_cell [OF assms] assign_as_update Transaction_zero_def spec_as_or_keep)

text \<open>
  The guard \<^verbatim>\<open>ok && idx < len(record)\<close> has no lower bound, and \<^verbatim>\<open>record[idx]\<close> panics on a
  negative index. That is why the lemmas above ask for indices that are not negative;
  \<^verbatim>\<open>readCSV\<close> builds no other header map (lemma \<open>header_index_nonneg\<close> below).
\<close>

lemma column_negative_index_panics:
  "parseTransaction env [] (map_of [(''transaction_id'', - 1)]) = Inl IndexOutOfRangePanic"
  by (simp add: parseTransaction_def column_def)

subsection \<open>upsert\<close>

lemma map_of_upsert:
  "map_of (upsert key change fresh m) k =
     (if k = key then Some (case map_of m key of None \<Rightarrow> fresh | Some v \<Rightarrow> change v)
      else map_of m k)"
  by (induction m) (auto split: option.splits)

lemma keys_upsert:
  "map fst (upsert key change fresh m) =
     (if key \<in> set (map fst m) then map fst m else map fst m @ [key])"
proof (induction m)
  case Nil
  then show ?case by simp
next
  case (Cons kv m)
  obtain k v where kv: "kv = (k, v)" by (cases kv)
  show ?case
  proof (cases "k = key")
    case True
    with kv show ?thesis by simp
  next
    case False
    with kv Cons.IH show ?thesis by simp
  qed
qed

lemma distinct_upsert:
  "distinct (map fst m) \<Longrightarrow> distinct (map fst (upsert key change fresh m))"
  by (simp add: keys_upsert)

lemma sum_upsert:
  fixes count :: "'v \<Rightarrow> int"
  assumes "\<And>v. count (change v) = count v + 1" and "count fresh = 1"
  shows "(\<Sum>e\<leftarrow>map snd (upsert key change fresh m). count e) = (\<Sum>e\<leftarrow>map snd m. count e) + 1"
  using assms by (induction m) auto

lemma map_of_upsert_all:
  "map_of (upsert_all key change fresh ts m) k =
     entry_after change fresh (filter (\<lambda>t. key t = k) ts) (map_of m k)"
  by (induction ts arbitrary: m) (simp_all add: map_of_upsert)

lemma keys_upsert_all:
  "set (map fst (upsert_all key change fresh ts m)) = set (map fst m) \<union> key ` set ts"
proof (induction ts arbitrary: m)
  case Nil
  then show ?case by simp
next
  case (Cons t ts)
  have "set (map fst (upsert (key t) (change t) (fresh t) m)) = insert (key t) (set (map fst m))"
    by (simp only: keys_upsert) auto
  with Cons.IH [of "upsert (key t) (change t) (fresh t) m"] show ?case by auto
qed

lemma distinct_upsert_all:
  "distinct (map fst m) \<Longrightarrow> distinct (map fst (upsert_all key change fresh ts m))"
  by (induction ts arbitrary: m) (simp_all add: distinct_upsert)

lemma length_upsert_all:
  "length (upsert_all key change fresh ts []) = card (key ` set ts)"
proof -
  have d: "distinct (map fst (upsert_all key change fresh ts []))"
    by (rule distinct_upsert_all) simp
  have "length (upsert_all key change fresh ts []) =
          length (map fst (upsert_all key change fresh ts []))" by simp
  also have "\<dots> = card (set (map fst (upsert_all key change fresh ts [])))"
    using d by (rule distinct_card [symmetric])
  also have "\<dots> = card (key ` set ts)"
    by (simp only: keys_upsert_all) simp
  finally show ?thesis .
qed

lemma sum_upsert_all:
  fixes count :: "'v \<Rightarrow> int"
  assumes "\<And>t v. count (change t v) = count v + 1" and "\<And>t. count (fresh t) = 1"
  shows "(\<Sum>e\<leftarrow>map snd (upsert_all key change fresh ts m). count e) =
           (\<Sum>e\<leftarrow>map snd m. count e) + int (length ts)"
proof (induction ts arbitrary: m)
  case Nil
  then show ?case by simp
next
  case (Cons t ts)
  have "(\<Sum>e\<leftarrow>map snd (upsert (key t) (change t) (fresh t) m). count e) =
          (\<Sum>e\<leftarrow>map snd m. count e) + 1"
    by (rule sum_upsert) (simp_all add: assms)
  with Cons.IH [of "upsert (key t) (change t) (fresh t) m"] show ?case by simp
qed

subsection \<open>The four maps of a run\<close>

lemma countryMap_aggregateWorker:
  "countryMap (aggregateWorker ts m) =
     upsert_all countryKey
       (\<lambda>t countryRev. countryRev
          \<lparr>TotalRevenue_CR := float64_add (TotalRevenue_CR countryRev) (TotalPrice t),
           TransactionCount := TransactionCount countryRev + 1\<rparr>)
       (\<lambda>t. \<lparr>Country_CR = Country t, ProductName_CR = ProductName t,
             TotalRevenue_CR = TotalPrice t, TransactionCount = 1\<rparr>)
       ts (countryMap m)"
  by (induction ts arbitrary: m) (simp_all add: aggregate_one_def)

lemma productMap_aggregateWorker:
  "productMap (aggregateWorker ts m) =
     upsert_all ProductName
       (\<lambda>t product.
          if StockQuantity t > 0
          then product\<lparr>PurchaseCount := PurchaseCount product + 1,
                       CurrentStock := StockQuantity t\<rparr>
          else product\<lparr>PurchaseCount := PurchaseCount product + 1\<rparr>)
       (\<lambda>t. \<lparr>ProductName_PF = ProductName t, PurchaseCount = 1,
             CurrentStock = StockQuantity t\<rparr>)
       ts (productMap m)"
  by (induction ts arbitrary: m) (simp_all add: aggregate_one_def)

lemma monthMap_aggregateWorker:
  "monthMap (aggregateWorker ts m) =
     upsert_all monthKey
       (\<lambda>t monthlySales. monthlySales
          \<lparr>TotalSales := float64_add (TotalSales monthlySales) (TotalPrice t),
           SalesVolume := int_add (SalesVolume monthlySales) (Quantity t)\<rparr>)
       (\<lambda>t. \<lparr>Month = Format_January (Time_Month (TransactionDate t)),
             Year = Time_Year (TransactionDate t),
             TotalSales = TotalPrice t, SalesVolume = Quantity t\<rparr>)
       ts (monthMap m)"
  by (induction ts arbitrary: m) (simp_all add: aggregate_one_def)

lemma regionMap_aggregateWorker:
  "regionMap (aggregateWorker ts m) =
     upsert_all Region
       (\<lambda>t region. region
          \<lparr>TotalRevenue_RR := float64_add (TotalRevenue_RR region) (TotalPrice t),
           ItemsSold := int_add (ItemsSold region) (Quantity t)\<rparr>)
       (\<lambda>t. \<lparr>Region_RR = Region t, TotalRevenue_RR = TotalPrice t,
             ItemsSold = Quantity t\<rparr>)
       ts (regionMap m)"
  by (induction ts arbitrary: m) (simp_all add: aggregate_one_def)


subsection \<open>\<^verbatim>\<open>sort.Slice\<close>\<close>

lemma mset_insertion_step: "mset (insertion_step less' data x) = add_mset x (mset data)"
proof -
  have "mset (takeWhile (less' x) (rev data) @ dropWhile (less' x) (rev data)) = mset data"
    by simp
  then have "mset (takeWhile (less' x) (rev data)) + mset (dropWhile (less' x) (rev data)) = mset data"
    by (simp only: mset_append)
  then show ?thesis
    by (simp add: insertion_step_def add.commute)
qed

lemma mset_foldl_insertion_step:
  "mset (foldl (insertion_step less') acc data) = mset acc + mset data"
  by (induction data arbitrary: acc) (simp_all add: mset_insertion_step)

lemma mset_sort_Slice: "mset (sort_Slice less' data) = mset data"
  by (simp add: sort_Slice_def mset_foldl_insertion_step)

lemma length_sort_Slice: "length (sort_Slice less' data) = length data"
  using mset_sort_Slice [of less' data] by (rule mset_eq_length)

lemma set_sort_Slice: "set (sort_Slice less' data) = set data"
  using mset_sort_Slice [of less' data] by (rule mset_eq_setD)

lemma set_insertion_step: "set (insertion_step less' data x) = insert x (set data)"
  using mset_insertion_step [of less' data x] by (metis mset_eq_setD mset.simps(2) list.set(2))


lemma sorted_insertion_step:
  assumes trans: "\<And>a b c. a \<in> A \<Longrightarrow> b \<in> A \<Longrightarrow> c \<in> A \<Longrightarrow> R a b \<Longrightarrow> R b c \<Longrightarrow> R a c"
    and before: "\<And>a b. a \<in> A \<Longrightarrow> b \<in> A \<Longrightarrow> less' a b \<Longrightarrow> R a b"
    and stay: "\<And>a b. a \<in> A \<Longrightarrow> b \<in> A \<Longrightarrow> \<not> less' a b \<Longrightarrow> R b a"
    and sub: "set data \<subseteq> A" and xA: "x \<in> A"
    and sorted: "sorted_wrt R data"
  shows "sorted_wrt R (insertion_step less' data x)"
proof -
  define kept where "kept = rev (dropWhile (less' x) (rev data))"
  define moved where "moved = rev (takeWhile (less' x) (rev data))"
  have data: "data = kept @ moved"
  proof -
    have "kept @ moved = rev (takeWhile (less' x) (rev data) @ dropWhile (less' x) (rev data))"
      by (simp only: kept_def moved_def rev_append)
    also have "\<dots> = rev (rev data)" by (simp only: takeWhile_dropWhile_id)
    finally show ?thesis by simp
  qed
  have moved_less: "less' x b" if "b \<in> set moved" for b
  proof -
    from that have "b \<in> set (takeWhile (less' x) (rev data))" by (simp add: moved_def)
    then show ?thesis by (rule set_takeWhileD [THEN conjunct2])
  qed
  have kept_last: "\<not> less' x (last kept)" if "kept \<noteq> []"
  proof -
    from that have ne: "dropWhile (less' x) (rev data) \<noteq> []" by (simp add: kept_def)
    then have "\<not> less' x (hd (dropWhile (less' x) (rev data)))" by (rule hd_dropWhile)
    moreover have "last kept = hd (dropWhile (less' x) (rev data))"
      using ne by (simp add: kept_def last_rev)
    ultimately show ?thesis by simp
  qed
  from sorted have "sorted_wrt R (kept @ moved)" by (simp only: data [symmetric])
  then have sf: "sorted_wrt R kept" and sb: "sorted_wrt R moved"
    and fb: "\<forall>f \<in> set kept. \<forall>b \<in> set moved. R f b"
    by (simp_all add: sorted_wrt_append)
  from sub have "set (kept @ moved) \<subseteq> A" by (simp only: data [symmetric])
  then have fA: "set kept \<subseteq> A" and bA: "set moved \<subseteq> A" by simp_all
  have kept_x: "R f x" if f: "f \<in> set kept" for f
  proof -
    from f have ne: "kept \<noteq> []" by auto
    then have lf: "last kept \<in> set kept" by simp
    with fA have lA: "last kept \<in> A" by blast
    from f fA have fA': "f \<in> A" by blast
    from kept_last [OF ne] have lx: "R (last kept) x"
      by (rule stay [OF xA lA])
    show ?thesis
    proof (cases "f = last kept")
      case True
      with lx show ?thesis by simp
    next
      case False
      from ne have fr: "butlast kept @ [last kept] = kept" by simp
      then have "set (butlast kept @ [last kept]) = set kept" by simp
      then have "set kept = set (butlast kept) \<union> {last kept}" by simp
      with f False have fb': "f \<in> set (butlast kept)" by blast
      from sf fr have "sorted_wrt R (butlast kept @ [last kept])" by simp
      then have "\<forall>a \<in> set (butlast kept). R a (last kept)"
        by (simp add: sorted_wrt_append)
      with fb' have "R f (last kept)" by blast
      then show ?thesis using lx by (rule trans [OF fA' lA xA])
    qed
  qed
  have x_moved: "R x b" if b: "b \<in> set moved" for b
  proof -
    from b bA have "b \<in> A" by blast
    with xA show ?thesis using moved_less [OF b] by (rule before)
  qed
  have "sorted_wrt R (kept @ x # moved)"
    using sf sb fb kept_x x_moved by (simp add: sorted_wrt_append)
  then show ?thesis by (simp add: insertion_step_def kept_def moved_def)
qed

lemma sorted_foldl_insertion_step:
  assumes trans: "\<And>a b c. a \<in> A \<Longrightarrow> b \<in> A \<Longrightarrow> c \<in> A \<Longrightarrow> R a b \<Longrightarrow> R b c \<Longrightarrow> R a c"
    and before: "\<And>a b. a \<in> A \<Longrightarrow> b \<in> A \<Longrightarrow> less' a b \<Longrightarrow> R a b"
    and stay: "\<And>a b. a \<in> A \<Longrightarrow> b \<in> A \<Longrightarrow> \<not> less' a b \<Longrightarrow> R b a"
  shows "set acc \<subseteq> A \<Longrightarrow> set data \<subseteq> A \<Longrightarrow> sorted_wrt R acc
           \<Longrightarrow> sorted_wrt R (foldl (insertion_step less') acc data)"
proof (induction data arbitrary: acc)
  case Nil
  then show ?case by simp
next
  case (Cons x data)
  from Cons.prems have xA: "x \<in> A" and dA: "set data \<subseteq> A" by simp_all
  have s: "sorted_wrt R (insertion_step less' acc x)"
    using trans before stay Cons.prems(1) xA Cons.prems(3)
    by (rule sorted_insertion_step)
  have "set (insertion_step less' acc x) \<subseteq> A"
    using Cons.prems(1) xA by (simp add: set_insertion_step)
  then have "sorted_wrt R (foldl (insertion_step less') (insertion_step less' acc x) data)"
    using dA s by (rule Cons.IH)
  then show ?case by simp
qed

lemma sorted_sort_Slice:
  assumes "\<And>a b c. a \<in> set data \<Longrightarrow> b \<in> set data \<Longrightarrow> c \<in> set data \<Longrightarrow> R a b \<Longrightarrow> R b c \<Longrightarrow> R a c"
    and "\<And>a b. a \<in> set data \<Longrightarrow> b \<in> set data \<Longrightarrow> less' a b \<Longrightarrow> R a b"
    and "\<And>a b. a \<in> set data \<Longrightarrow> b \<in> set data \<Longrightarrow> \<not> less' a b \<Longrightarrow> R b a"
  shows "sorted_wrt R (sort_Slice less' data)"
proof -
  have "sorted_wrt R (foldl (insertion_step less') [] data)"
  proof (rule sorted_foldl_insertion_step [where A = "set data"])
    show "R a c" if "a \<in> set data" "b \<in> set data" "c \<in> set data" "R a b" "R b c" for a b c
      using that by (rule assms(1))
    show "R a b" if "a \<in> set data" "b \<in> set data" "less' a b" for a b
      using that by (rule assms(2))
    show "R b a" if "a \<in> set data" "b \<in> set data" "\<not> less' a b" for a b
      using that by (rule assms(3))
    show "set [] \<subseteq> set data" by simp
    show "set data \<subseteq> set data" by simp
    show "sorted_wrt R []" by simp
  qed
  then show ?thesis by (simp only: sort_Slice_def)
qed


subsection \<open>The reader\<close>

lemma foldl_header_nonneg:
  assumes "\<forall>name idx. m name = Some idx \<longrightarrow> 0 \<le> idx"
  shows "\<forall>name idx.
           foldl (\<lambda>headerMap (i, header). headerMap(f header \<mapsto> int i)) m (enumerate n headers) name
             = Some idx \<longrightarrow> 0 \<le> idx"
  using assms
proof (induction headers arbitrary: m n)
  case Nil
  then show ?case by simp
next
  case (Cons h headers)
  have "\<forall>name idx. (m(f h \<mapsto> int n)) name = Some idx \<longrightarrow> 0 \<le> idx"
    using Cons.prems by auto
  from Cons.IH [OF this, of "Suc n"] show ?case by simp
qed

lemma header_index_nonneg:
  "\<forall>name idx. header_index env headers name = Some idx \<longrightarrow> 0 \<le> idx"
  unfolding header_index_def by (rule foldl_header_nonneg) simp

text \<open>So \<^verbatim>\<open>parseTransaction\<close> never fails on a header map of \<^verbatim>\<open>readCSV\<close>.\<close>

lemma parseTransaction_header_index:
  "parseTransaction env record' (header_index env headers) =
     Inr (spec_parse env record' (header_index env headers), None)"
  by (rule parseTransaction_spec_parse) (rule header_index_nonneg)

lemma read_records_sent:
  assumes "\<forall>name idx. headerMap name = Some idx \<longrightarrow> 0 \<le> idx"
  shows "read_records env headerMap rows =
           Inr (map (\<lambda>record'. spec_parse env record' headerMap) (valid_rows rows))"
  by (induction rows rule: valid_rows.induct)
    (simp_all add: parseTransaction_spec_parse [OF assms])

lemma readCSV_sent:
  "readCSV env (Record headers # rows) =
     Inr (map (\<lambda>record'. spec_parse env record' (header_index env headers)) (valid_rows rows))"
  by (simp add: readCSV_def read_records_sent [OF header_index_nonneg])

lemma readCSV_header_failed:
  "readCSV env [] = Inl ReadHeaderFailed" "readCSV env (ReadError # rows) = Inl ReadHeaderFailed"
  by (simp_all add: readCSV_def)

lemma readCSV_cases:
  "readCSV env reads = Inl ReadHeaderFailed \<or> (\<exists>sent. readCSV env reads = Inr sent)"
proof (cases reads)
  case Nil
  then show ?thesis by (simp add: readCSV_header_failed)
next
  case (Cons r rows)
  then show ?thesis by (cases r) (simp_all add: readCSV_header_failed readCSV_sent)
qed

lemma ProcessDataset_sent:
  assumes "readCSV env reads = Inr sent"
  shows "ProcessDataset env rt (Opened reads) dashboardData =
           (None, publish rt (aggregateWorker (worker_order rt sent) Maps_empty) dashboardData)"
  using assms by (simp add: ProcessDataset_def)

subsection \<open>Sums and lengths of the published views\<close>

lemma sum_list_mset_cong:
  fixes f :: "'a \<Rightarrow> int"
  assumes "mset xs = mset ys"
  shows "sum_list (map f xs) = sum_list (map f ys)"
proof -
  have "sum_list (map f xs) = sum_mset (image_mset f (mset xs))"
    by (metis mset_map sum_mset_sum_list)
  also have "\<dots> = sum_mset (image_mset f (mset ys))" by (simp only: assms)
  also have "\<dots> = sum_list (map f ys)" by (metis mset_map sum_mset_sum_list)
  finally show ?thesis .
qed

lemma worker_order_length: "runtime_ok rt \<Longrightarrow> length (worker_order rt xs) = length xs"
  unfolding runtime_ok_def by (metis size_mset)

lemma worker_order_set: "runtime_ok rt \<Longrightarrow> set (worker_order rt xs) = set xs"
  unfolding runtime_ok_def by (metis set_mset_mset)

lemma sum_TransactionCount_countryMap:
  "(\<Sum>e\<leftarrow>map snd (countryMap (aggregateWorker ts Maps_empty)). TransactionCount e)
     = int (length ts)"
proof -
  have "(\<Sum>e\<leftarrow>map snd (upsert_all countryKey
          (\<lambda>t countryRev. countryRev
             \<lparr>TotalRevenue_CR := float64_add (TotalRevenue_CR countryRev) (TotalPrice t),
              TransactionCount := TransactionCount countryRev + 1\<rparr>)
          (\<lambda>t. \<lparr>Country_CR = Country t, ProductName_CR = ProductName t,
                TotalRevenue_CR = TotalPrice t, TransactionCount = 1\<rparr>)
          ts []). TransactionCount e)
        = (\<Sum>e\<leftarrow>map snd ([] :: CountryRevenue gomap). TransactionCount e) + int (length ts)"
    by (rule sum_upsert_all) simp_all
  then show ?thesis
    by (simp only: countryMap_aggregateWorker Maps_empty_def Maps.simps) simp
qed

lemma runtime_ok_sample: "runtime_ok sample_runtime"
  by (simp add: runtime_ok_def sample_runtime_def)

subsection \<open>Lengths\<close>

lemma range_lengths:
  assumes "runtime_ok rt"
  shows "length (range_countryMap rt cs) = length cs"
    and "length (range_productMap rt ps) = length ps"
    and "length (range_monthMap rt ms) = length ms"
    and "length (range_regionMap rt rs) = length rs"
  using assms unfolding runtime_ok_def by (metis size_mset)+

lemma range_sets:
  assumes "runtime_ok rt"
  shows "set (range_countryMap rt cs) = set cs"
    and "set (range_monthMap rt ms) = set ms"
    and "set (range_regionMap rt rs) = set rs"
  using assms unfolding runtime_ok_def by (metis set_mset_mset)+

lemma length_maps:
  "length (countryMap (aggregateWorker ts Maps_empty)) = card (countryKey ` set ts)"
  "length (productMap (aggregateWorker ts Maps_empty)) = card (ProductName ` set ts)"
  "length (monthMap (aggregateWorker ts Maps_empty)) = card (monthKey ` set ts)"
  "length (regionMap (aggregateWorker ts Maps_empty)) = card (Region ` set ts)"
  by (simp_all add: countryMap_aggregateWorker productMap_aggregateWorker
      monthMap_aggregateWorker regionMap_aggregateWorker Maps_empty_def length_upsert_all)

subsection \<open>Order of \<^verbatim>\<open>float64\<close>\<close>

lemma float64_ge_trans: "float64_ge a b \<Longrightarrow> float64_ge b c \<Longrightarrow> float64_ge a c"
  by (cases a; cases b; cases c) (simp_all add: float64_ge_def)

lemma float64_gt_ge: "float64_gt a b \<Longrightarrow> float64_ge a b"
  by (cases a; cases b) (simp_all add: float64_ge_def float64_gt_def)

lemma float64_not_gt_ge: "a \<noteq> NaN \<Longrightarrow> b \<noteq> NaN \<Longrightarrow> \<not> float64_gt a b \<Longrightarrow> float64_ge b a"
  by (cases a; cases b) (simp_all add: float64_ge_def float64_gt_def)

lemma float64_add_zero: "float64_add x (Fin 0) = x"
  by (cases x) simp_all

lemma sorted_by_float:
  assumes "\<forall>e \<in> set data. key e \<noteq> NaN"
  shows "sorted_wrt (\<lambda>a b. float64_ge (key a) (key b))
           (sort_Slice (\<lambda>a b. float64_gt (key a) (key b)) data)"
proof (rule sorted_sort_Slice)
  show "float64_ge (key a) (key c)"
    if "a \<in> set data" "b \<in> set data" "c \<in> set data"
      "float64_ge (key a) (key b)" "float64_ge (key b) (key c)" for a b c
    using that(4,5) by (rule float64_ge_trans)
  show "float64_ge (key a) (key b)"
    if "a \<in> set data" "b \<in> set data" "float64_gt (key a) (key b)" for a b
    using that(3) by (rule float64_gt_ge)
  show "float64_ge (key b) (key a)"
    if "a \<in> set data" "b \<in> set data" "\<not> float64_gt (key a) (key b)" for a b
    using that assms by (simp add: float64_not_gt_ge)
qed

lemma sorted_monthly:
  assumes "\<forall>e \<in> set data. TotalSales e \<noteq> NaN"
  shows "sorted_wrt monthly_order
           (sort_Slice (\<lambda>a b. if Year a \<noteq> Year b then Year a > Year b
                              else float64_gt (TotalSales a) (TotalSales b)) data)"
proof (rule sorted_sort_Slice)
  show "monthly_order a c"
    if "a \<in> set data" "b \<in> set data" "c \<in> set data" "monthly_order a b" "monthly_order b c"
    for a b c
    using that(4,5) float64_ge_trans [of "TotalSales a" "TotalSales b" "TotalSales c"]
    by (auto simp: monthly_order_def)
  show "monthly_order a b"
    if "a \<in> set data" "b \<in> set data"
      "if Year a \<noteq> Year b then Year a > Year b else float64_gt (TotalSales a) (TotalSales b)"
    for a b
    using that(3) float64_gt_ge [of "TotalSales a" "TotalSales b"]
    by (auto simp: monthly_order_def split: if_splits)
  show "monthly_order b a"
    if "a \<in> set data" "b \<in> set data"
      "\<not> (if Year a \<noteq> Year b then Year a > Year b else float64_gt (TotalSales a) (TotalSales b))"
    for a b
    using that assms float64_not_gt_ge [of "TotalSales a" "TotalSales b"]
    by (auto simp: monthly_order_def split: if_splits)
qed

lemma sorted_wrt_limit:
  "sorted_wrt R xs \<Longrightarrow> sorted_wrt R (if length xs > limit then take limit xs else xs)"
  by simp

subsection \<open>The sample run\<close>

lemmas sample_eval =
  spec_parse_def cell_def header_index_def spec_text_def spec_float_def spec_int_def
  spec_date_def sample_stdlib_def sample_TrimSpace_def sample_ToLower_def
  sample_ParseFloat_def sample_Atoi_def sample_time_Parse_def

lemma readCSV_sample_file:
  "readCSV sample_stdlib sample_file =
     Inr [Transaction_zero
            \<lparr>Country := ''USA'', Region := ''West'', ProductName := ''Laptop'', Quantity := 2,
             TotalPrice := Fin 1000, StockQuantity := 100,
             TransactionDate := \<lparr>Time_Year = 2024, Time_Month = January, Time_Day = 15,
                                 Time_Nanosecond = 0\<rparr>\<rparr>,
          Transaction_zero
            \<lparr>Country := ''USA'', Region := ''West'', ProductName := ''Laptop'', Quantity := 1,
             TotalPrice := Fin 500, StockQuantity := 0,
             TransactionDate := \<lparr>Time_Year = 2024, Time_Month = March, Time_Day = 15,
                                 Time_Nanosecond = 0\<rparr>\<rparr>,
          Transaction_zero
            \<lparr>Country := ''UK'', Region := ''London'', ProductName := ''Phone'', Quantity := 1,
             TotalPrice := Fin 800, StockQuantity := 150\<rparr>]"
  unfolding sample_file_def
  by (simp add: readCSV_sent sample_eval Transaction_zero_def)

lemma header_index_sample:
  "header_index sample_stdlib
     [''Transaction_ID'', '' price'', ''quantity'', ''transaction_date'', ''added_date'',
      ''stock_quantity''] =
   [''transaction_id'' \<mapsto> 0, ''price'' \<mapsto> 1, ''quantity'' \<mapsto> 2, ''transaction_date'' \<mapsto> 3,
    ''added_date'' \<mapsto> 4, ''stock_quantity'' \<mapsto> 5]"
  by (simp add: header_index_def sample_stdlib_def sample_TrimSpace_def sample_ToLower_def)

lemma Sprintf_numerals:
  "Sprintf_d 1 = ''1''" "Sprintf_d 2024 = ''2024''"
  "Sprintf_02d 1 = ''01''" "Sprintf_02d 3 = ''03''"
  by (simp_all add: Sprintf_d_def Sprintf_02d_def digits.simps digit_char_def)

lemma maps_sample_file:
  "aggregateWorker
     [Transaction_zero
        \<lparr>Country := ''USA'', Region := ''West'', ProductName := ''Laptop'', Quantity := 2,
         TotalPrice := Fin 1000, StockQuantity := 100,
         TransactionDate := \<lparr>Time_Year = 2024, Time_Month = January, Time_Day = 15,
                             Time_Nanosecond = 0\<rparr>\<rparr>,
      Transaction_zero
        \<lparr>Country := ''USA'', Region := ''West'', ProductName := ''Laptop'', Quantity := 1,
         TotalPrice := Fin 500, StockQuantity := 0,
         TransactionDate := \<lparr>Time_Year = 2024, Time_Month = March, Time_Day = 15,
                             Time_Nanosecond = 0\<rparr>\<rparr>,
      Transaction_zero
        \<lparr>Country := ''UK'', Region := ''London'', ProductName := ''Phone'', Quantity := 1,
         TotalPrice := Fin 800, StockQuantity := 150\<rparr>] Maps_empty =
   \<lparr>countryMap =
      [(''USA-Laptop'', \<lparr>Country_CR = ''USA'', ProductName_CR = ''Laptop'',
                         TotalRevenue_CR = Fin 1500, TransactionCount = 2\<rparr>),
       (''UK-Phone'', \<lparr>Country_CR = ''UK'', ProductName_CR = ''Phone'',
                       TotalRevenue_CR = Fin 800, TransactionCount = 1\<rparr>)],
    productMap =
      [(''Laptop'', \<lparr>ProductName_PF = ''Laptop'', PurchaseCount = 2, CurrentStock = 100\<rparr>),
       (''Phone'', \<lparr>ProductName_PF = ''Phone'', PurchaseCount = 1, CurrentStock = 150\<rparr>)],
    monthMap =
      [(''2024-01'', \<lparr>Month = ''January'', Year = 2024, TotalSales = Fin 1000, SalesVolume = 2\<rparr>),
       (''2024-03'', \<lparr>Month = ''March'', Year = 2024, TotalSales = Fin 500, SalesVolume = 1\<rparr>),
       (''1-01'', \<lparr>Month = ''January'', Year = 1, TotalSales = Fin 800, SalesVolume = 1\<rparr>)],
    regionMap =
      [(''West'', \<lparr>Region_RR = ''West'', TotalRevenue_RR = Fin 1500, ItemsSold = 3\<rparr>),
       (''London'', \<lparr>Region_RR = ''London'', TotalRevenue_RR = Fin 800, ItemsSold = 1\<rparr>)]\<rparr>"
  by (simp add: aggregate_one_def Maps_empty_def Transaction_zero_def Time_zero_def countryKey_def
      monthKey_def Sprintf_numerals int_add_def float64_round_numeral)

subsection \<open>One entry over the records of its key\<close>

lemma entry_after_Some:
  "entry_after change fresh ts (Some v) = Some (foldl (\<lambda>v t. change t v) v ts)"
  by (induction ts arbitrary: v) simp_all

lemma entry_after_None:
  "entry_after change fresh [] None = None"
  "entry_after change fresh (t # ts) None = Some (foldl (\<lambda>v t. change t v) (fresh t) ts)"
  by (simp_all add: entry_after_Some)

lemma PurchaseCount_foldl:
  "PurchaseCount (foldl (\<lambda>product t.
       if StockQuantity t > 0
       then product\<lparr>PurchaseCount := PurchaseCount product + 1, CurrentStock := StockQuantity t\<rparr>
       else product\<lparr>PurchaseCount := PurchaseCount product + 1\<rparr>) product ts)
     = PurchaseCount product + int (length ts)"
  by (induction ts arbitrary: product) simp_all

lemma spec_current_stock_Cons:
  "spec_current_stock first (s # later) =
     (if 0 < s then spec_current_stock s later else spec_current_stock first later)"
  by (simp add: spec_current_stock_def split: list.splits)

lemma CurrentStock_foldl:
  "CurrentStock (foldl (\<lambda>product t.
       if StockQuantity t > 0
       then product\<lparr>PurchaseCount := PurchaseCount product + 1, CurrentStock := StockQuantity t\<rparr>
       else product\<lparr>PurchaseCount := PurchaseCount product + 1\<rparr>) product ts)
     = spec_current_stock (CurrentStock product) (map StockQuantity ts)"
proof (induction ts arbitrary: product)
  case Nil
  then show ?case by (simp add: spec_current_stock_def)
next
  case (Cons t ts)
  then show ?case by (simp add: spec_current_stock_Cons)
qed

lemma map_of_productMap_step:
  "map_of (productMap (aggregate_one t m)) name =
     (if name = ProductName t
      then Some (case map_of (productMap m) (ProductName t) of
                   None \<Rightarrow> \<lparr>ProductName_PF = ProductName t, PurchaseCount = 1,
                             CurrentStock = StockQuantity t\<rparr>
                 | Some product \<Rightarrow>
                     if StockQuantity t > 0
                     then product\<lparr>PurchaseCount := PurchaseCount product + 1,
                                  CurrentStock := StockQuantity t\<rparr>
                     else product\<lparr>PurchaseCount := PurchaseCount product + 1\<rparr>)
      else map_of (productMap m) name)"
  by (simp add: aggregate_one_def map_of_upsert)

lemma ProcessDataset_OpenError:
  "ProcessDataset env rt OpenError dashboardData = (Some OpenFailed, dashboardData)"
  by (simp add: ProcessDataset_def)

lemma ProcessDataset_header_error:
  assumes "readCSV env reads = Inl ReadHeaderFailed"
  shows "ProcessDataset env rt (Opened reads) dashboardData =
           (if select_takes rt = done_case then (None, publish rt Maps_empty dashboardData)
            else (Some (ProcessingFailed ReadHeaderFailed), dashboardData))"
  using assms by (simp add: ProcessDataset_def)

subsection \<open>The country-product entry of one record\<close>

lemma map_of_countryMap_step:
  "map_of (countryMap (aggregate_one t m)) (countryKey t) =
     Some (case map_of (countryMap m) (countryKey t) of
             None \<Rightarrow> \<lparr>Country_CR = Country t, ProductName_CR = ProductName t,
                       TotalRevenue_CR = TotalPrice t, TransactionCount = 1\<rparr>
           | Some countryRev \<Rightarrow> countryRev
               \<lparr>TotalRevenue_CR := float64_add (TotalRevenue_CR countryRev) (TotalPrice t),
                TransactionCount := TransactionCount countryRev + 1\<rparr>)"
  by (simp add: aggregate_one_def map_of_upsert)

subsection \<open>The key of a month\<close>

lemma digits_not_Nil: "digits n \<noteq> []"
  by (subst digits.simps) simp

lemma digit_char_1: "n < 10 \<Longrightarrow> digit_char n = CHR ''1'' \<Longrightarrow> n = 1"
proof -
  assume n: "n < 10" and c: "digit_char n = CHR ''1''"
  have d: "distinct ''0123456789''" by simp
  have l: "length ''0123456789'' = 10" by simp
  from n c have "''0123456789'' ! n = ''0123456789'' ! 1" by (simp add: digit_char_def)
  moreover from n l have "n < length ''0123456789''" by simp
  moreover from l have "1 < length ''0123456789''" by simp
  ultimately show "n = 1" using d by (simp only: nth_eq_iff_index_eq)
qed

lemma digits_1: "digits n = ''1'' \<Longrightarrow> n = 1"
proof (cases "n < 10")
  case True
  assume "digits n = ''1''"
  with True have "digit_char n = CHR ''1''" by (simp add: digits.simps [of n])
  with True show ?thesis by (rule digit_char_1)
next
  case False
  assume "digits n = ''1''"
  with False have "digits (n div 10) @ [digit_char (n mod 10)] = ''1''"
    by (simp add: digits.simps [of n])
  then have "length (digits (n div 10) @ [digit_char (n mod 10)]) = 1" by simp
  then have "digits (n div 10) = []" by simp
  with digits_not_Nil show ?thesis by blast
qed

lemma Sprintf_d_1: "Sprintf_d y = ''1'' \<longleftrightarrow> y = 1"
proof
  assume a: "Sprintf_d y = ''1''"
  show "y = 1"
  proof (cases "y < 0")
    case True
    with a show ?thesis by (simp add: Sprintf_d_def)
  next
    case False
    with a have "digits (nat y) = ''1''" by (simp add: Sprintf_d_def)
    then have "nat y = 1" by (rule digits_1)
    with False show ?thesis by simp
  qed
next
  assume "y = 1"
  then show "Sprintf_d y = ''1''" by (simp add: Sprintf_numerals)
qed

lemma Sprintf_02d_values:
  "Sprintf_02d 1 = ''01''" "Sprintf_02d 2 = ''02''" "Sprintf_02d 3 = ''03''"
  "Sprintf_02d 4 = ''04''" "Sprintf_02d 5 = ''05''" "Sprintf_02d 6 = ''06''"
  "Sprintf_02d 7 = ''07''" "Sprintf_02d 8 = ''08''" "Sprintf_02d 9 = ''09''"
  "Sprintf_02d 10 = ''10''" "Sprintf_02d 11 = ''11''" "Sprintf_02d 12 = ''12''"
  by (simp_all add: Sprintf_02d_def Sprintf_d_def digits.simps digit_char_def)

lemma monthKey_zero:
  "monthKey t = ''1-01'' \<longleftrightarrow>
     Time_Year (TransactionDate t) = 1 \<and> Time_Month (TransactionDate t) = January"
proof -
  have len: "length (''-'' @ Sprintf_02d (Month_number (Time_Month (TransactionDate t)))) = length ''-01''"
    by (cases "Time_Month (TransactionDate t)") (simp_all add: Sprintf_02d_values)
  have "monthKey t = ''1-01'' \<longleftrightarrow>
          Sprintf_d (Time_Year (TransactionDate t)) @
            (''-'' @ Sprintf_02d (Month_number (Time_Month (TransactionDate t)))) = ''1'' @ ''-01''"
    by (simp add: monthKey_def)
  also have "\<dots> \<longleftrightarrow> Sprintf_d (Time_Year (TransactionDate t)) = ''1'' \<and>
      ''-'' @ Sprintf_02d (Month_number (Time_Month (TransactionDate t))) = ''-01''"
    using len by (rule append_eq_append_conv [OF disjI2])
  also have "\<dots> \<longleftrightarrow> Time_Year (TransactionDate t) = 1 \<and> Time_Month (TransactionDate t) = January"
    by (cases "Time_Month (TransactionDate t)") (simp_all add: Sprintf_d_1 Sprintf_02d_values)
  finally show ?thesis .
qed

lemma Year_Month_foldl:
  "Year (foldl (\<lambda>monthlySales t. monthlySales
       \<lparr>TotalSales := float64_add (TotalSales monthlySales) (TotalPrice t),
        SalesVolume := int_add (SalesVolume monthlySales) (Quantity t)\<rparr>) e ts) = Year e"
  "Month (foldl (\<lambda>monthlySales t. monthlySales
       \<lparr>TotalSales := float64_add (TotalSales monthlySales) (TotalPrice t),
        SalesVolume := int_add (SalesVolume monthlySales) (Quantity t)\<rparr>) e ts) = Month e"
  "SalesVolume (foldl (\<lambda>monthlySales t. monthlySales
       \<lparr>TotalSales := float64_add (TotalSales monthlySales) (TotalPrice t),
        SalesVolume := int_add (SalesVolume monthlySales) (Quantity t)\<rparr>) e ts)
     = foldl int_add (SalesVolume e) (map Quantity ts)"
  "TotalSales (foldl (\<lambda>monthlySales t. monthlySales
       \<lparr>TotalSales := float64_add (TotalSales monthlySales) (TotalPrice t),
        SalesVolume := int_add (SalesVolume monthlySales) (Quantity t)\<rparr>) e ts)
     = foldl float64_add (TotalSales e) (map TotalPrice ts)"
  by (induction ts arbitrary: e) simp_all

lemma set_sortMonthlySales:
  assumes "runtime_ok rt"
  shows "set (sortMonthlySales rt m) = snd ` set m"
  by (simp add: sortMonthlySales_def set_sort_Slice range_sets [OF assms])

subsection \<open>A run that returns nil\<close>

lemma worker_order_Nil: "runtime_ok rt \<Longrightarrow> worker_order rt [] = []"
  unfolding runtime_ok_def by (metis mset_zero_iff)

lemma ProcessDataset_completed:
  assumes ok: "runtime_ok rt"
    and run: "ProcessDataset env rt file dashboardData = (None, d)"
  shows "d = publish rt (aggregateWorker (worker_order rt (sent_records env file)) Maps_empty)
               dashboardData"
proof (cases "file")
  case OpenError
  with run show ?thesis by (simp add: ProcessDataset_def)
next
  case (Opened reads)
  from readCSV_cases [of env reads] show ?thesis
  proof
    assume failed: "readCSV env reads = Inl ReadHeaderFailed"
    with run Opened have "d = publish rt Maps_empty dashboardData"
      by (simp add: ProcessDataset_header_error split: if_splits)
    with failed Opened show ?thesis
      by (simp add: sent_records_def worker_order_Nil [OF ok])
  next
    assume "\<exists>sent. readCSV env reads = Inr sent"
    then obtain sent where sent: "readCSV env reads = Inr sent" ..
    with run Opened show ?thesis
      by (simp add: ProcessDataset_sent sent_records_def)
  qed
qed

lemma sent_records_sample_file:
  "sent_records sample_stdlib (Opened sample_file) =
     [Transaction_zero
        \<lparr>Country := ''USA'', Region := ''West'', ProductName := ''Laptop'', Quantity := 2,
         TotalPrice := Fin 1000, StockQuantity := 100,
         TransactionDate := \<lparr>Time_Year = 2024, Time_Month = January, Time_Day = 15,
                             Time_Nanosecond = 0\<rparr>\<rparr>,
      Transaction_zero
        \<lparr>Country := ''USA'', Region := ''West'', ProductName := ''Laptop'', Quantity := 1,
         TotalPrice := Fin 500, StockQuantity := 0,
         TransactionDate := \<lparr>Time_Year = 2024, Time_Month = March, Time_Day = 15,
                             Time_Nanosecond = 0\<rparr>\<rparr>,
      Transaction_zero
        \<lparr>Country := ''UK'', Region := ''London'', ProductName := ''Phone'', Quantity := 1,
         TotalPrice := Fin 800, StockQuantity := 150\<rparr>]"
  by (simp add: sent_records_def readCSV_sample_file)

lemma ProcessDataset_sample_file:
  "ProcessDataset sample_stdlib sample_runtime (Opened sample_file) New =
     (None, snd (ProcessDataset sample_stdlib sample_runtime (Opened sample_file) New))"
  by (simp add: ProcessDataset_sent [OF readCSV_sample_file])

subsection \<open>The stock of a published product\<close>

lemma range_productMap_set:
  assumes "runtime_ok rt"
  shows "set (range_productMap rt ps) = set ps"
  using assms unfolding runtime_ok_def by (metis set_mset_mset)

lemma set_sortTopProducts:
  assumes "runtime_ok rt"
  shows "set (sortTopProducts rt m limit) \<subseteq> snd ` set m"
proof -
  have "set (sortTopProducts rt m limit) \<subseteq>
          set (sort_Slice (\<lambda>a b. PurchaseCount a > PurchaseCount b)
                 (range_productMap rt (map snd m)))"
    by (simp add: sortTopProducts_def Let_def set_take_subset)
  then show ?thesis
    by (simp add: set_sort_Slice range_productMap_set [OF assms])
qed

lemma ProductName_PF_foldl:
  "ProductName_PF (foldl (\<lambda>product t.
       if StockQuantity t > 0
       then product\<lparr>PurchaseCount := PurchaseCount product + 1, CurrentStock := StockQuantity t\<rparr>
       else product\<lparr>PurchaseCount := PurchaseCount product + 1\<rparr>) product ts)
     = ProductName_PF product"
  by (induction ts arbitrary: product) simp_all

lemma productMap_entry:
  assumes "(k, p) \<in> set (productMap (aggregateWorker ts Maps_empty))"
  shows "\<exists>first later.
           filter (\<lambda>t. ProductName t = ProductName_PF p) ts = first # later \<and>
           CurrentStock p = spec_current_stock (StockQuantity first) (map StockQuantity later)"
proof -
  have "distinct (map fst (productMap (aggregateWorker ts Maps_empty)))"
    by (simp add: productMap_aggregateWorker Maps_empty_def distinct_upsert_all)
  with assms have entry: "map_of (productMap (aggregateWorker ts Maps_empty)) k = Some p"
    by simp
  show ?thesis
  proof (cases "filter (\<lambda>t. ProductName t = k) ts")
    case Nil
    with entry show ?thesis
      by (simp add: productMap_aggregateWorker map_of_upsert_all Maps_empty_def)
  next
    case (Cons first later)
    then have "first \<in> set (filter (\<lambda>t. ProductName t = k) ts)" by simp
    then have k: "ProductName first = k" by simp
    from entry Cons have p: "p = foldl (\<lambda>product t.
       if StockQuantity t > 0
       then product\<lparr>PurchaseCount := PurchaseCount product + 1, CurrentStock := StockQuantity t\<rparr>
       else product\<lparr>PurchaseCount := PurchaseCount product + 1\<rparr>)
         \<lparr>ProductName_PF = ProductName first, PurchaseCount = 1,
          CurrentStock = StockQuantity first\<rparr> later"
      by (simp add: productMap_aggregateWorker map_of_upsert_all Maps_empty_def
          entry_after_None entry_after_Some)
    have name: "ProductName_PF p = k"
      by (simp only: p ProductName_PF_foldl) (simp add: k)
    have stock: "CurrentStock p = spec_current_stock (StockQuantity first) (map StockQuantity later)"
      by (simp only: p CurrentStock_foldl) simp
    from Cons name stock show ?thesis by simp
  qed
qed

text \<open>
  In every run that returns nil, an entry of the top-products view holds the stock that
  the records of its product give in the order in which they were aggregated.
\<close>

lemma published_stock:
  assumes ok: "runtime_ok rt"
    and run: "ProcessDataset env rt file dashboardData = (None, d)"
    and p: "p \<in> set (TopProducts d)"
  shows "\<exists>first later.
           filter (\<lambda>t. ProductName t = ProductName_PF p) (worker_order rt (sent_records env file))
             = first # later \<and>
           CurrentStock p = spec_current_stock (StockQuantity first) (map StockQuantity later)"
proof -
  define maps where "maps = aggregateWorker (worker_order rt (sent_records env file)) Maps_empty"
  have d: "d = publish rt maps dashboardData"
    unfolding maps_def using ok run by (rule ProcessDataset_completed)
  from p have "p \<in> set (sortTopProducts rt (productMap maps) 20)"
    by (simp add: d publish_def)
  with set_sortTopProducts [OF ok] have "p \<in> snd ` set (productMap maps)" by blast
  then obtain k where "(k, p) \<in> set (productMap maps)" by auto
  then show ?thesis unfolding maps_def by (rule productMap_entry)
qed

lemma readCSV_sample_file_stock:
  "readCSV sample_stdlib sample_file_stock =
     Inr [Transaction_zero\<lparr>ProductName := ''Pen'', StockQuantity := 100\<rparr>,
          Transaction_zero\<lparr>ProductName := ''Pen'', StockQuantity := 0\<rparr>,
          Transaction_zero\<lparr>ProductName := ''Pen'', StockQuantity := 150\<rparr>]"
  unfolding sample_file_stock_def
  by (simp add: readCSV_sent sample_eval Transaction_zero_def)

lemma sent_records_sample_file_stock:
  "sent_records sample_stdlib (Opened sample_file_stock) =
     [Transaction_zero\<lparr>ProductName := ''Pen'', StockQuantity := 100\<rparr>,
      Transaction_zero\<lparr>ProductName := ''Pen'', StockQuantity := 0\<rparr>,
      Transaction_zero\<lparr>ProductName := ''Pen'', StockQuantity := 150\<rparr>]"
  by (simp add: sent_records_def readCSV_sample_file_stock)

lemma TopProducts_sample_file_stock:
  "TopProducts (snd (ProcessDataset sample_stdlib sample_runtime (Opened sample_file_stock) New)) =
     [\<lparr>ProductName_PF = ''Pen'', PurchaseCount = 3, CurrentStock = 150\<rparr>]"
  by (simp add: ProcessDataset_sent [OF readCSV_sample_file_stock] sample_runtime_def publish_def
      sortTopProducts_def aggregate_one_def Maps_empty_def Transaction_zero_def
      sort_Slice_def insertion_step_def New_def)

lemma ProcessDataset_sample_file_stock:
  "ProcessDataset sample_stdlib sample_runtime (Opened sample_file_stock) New =
     (None, snd (ProcessDataset sample_stdlib sample_runtime (Opened sample_file_stock) New))"
  by (simp add: ProcessDataset_sent [OF readCSV_sample_file_stock])

lemma runtime_ok_sample_late: "runtime_ok sample_runtime_late"
proof -
  have "mset (rotate1 xs) = mset xs" for xs :: "Transaction list"
    by (cases xs) simp_all
  then show ?thesis
    by (simp add: runtime_ok_def sample_runtime_late_def sample_runtime_def)
qed

text \<open>
  The workers take the rows from the channel in the order of the file, and each aggregates
  its row once it holds the mutex, so a row can be aggregated after a later one. In the
  run \<open>sample_runtime_late\<close> the row with the reading 100 is aggregated after the rows with
  the readings 0 and 150, and the published stock is 100: not the latest reading, which the
  comment \<^verbatim>\<open>// Keep latest stock value\<close> on the assignment names.
\<close>

lemma stock_of_late_first_row:
  "fst (ProcessDataset sample_stdlib sample_runtime_late (Opened sample_file_stock) New) = None \<and>
   TopProducts (snd (ProcessDataset sample_stdlib sample_runtime_late (Opened sample_file_stock) New)) =
     [\<lparr>ProductName_PF = ''Pen'', PurchaseCount = 3, CurrentStock = 100\<rparr>]"
  by (simp add: ProcessDataset_sent [OF readCSV_sample_file_stock] sample_runtime_late_def
      sample_runtime_def publish_def
      sortTopProducts_def aggregate_one_def Maps_empty_def Transaction_zero_def
      sort_Slice_def insertion_step_def New_def)

subsection \<open>The order of the published views\<close>

text \<open>
  A view whose totals hold no NaN is in order after every run that returns nil. (The
  top-regions view is cut after the sort, so its condition is on all the regions.)
\<close>

lemma country_view_sorted:
  assumes ok: "runtime_ok rt"
    and run: "ProcessDataset env rt file dashboardData = (None, d)"
    and finite: "\<forall>e \<in> set (CountryRevenues d). TotalRevenue_CR e \<noteq> NaN"
  shows "sorted_wrt (\<lambda>a b. float64_ge (TotalRevenue_CR a) (TotalRevenue_CR b)) (CountryRevenues d)"
proof -
  define maps where "maps = aggregateWorker (worker_order rt (sent_records env file)) Maps_empty"
  have d: "d = publish rt maps dashboardData"
    unfolding maps_def using ok run by (rule ProcessDataset_completed)
  from finite have
    "\<forall>e \<in> set (range_countryMap rt (map snd (countryMap maps))). TotalRevenue_CR e \<noteq> NaN"
    by (simp add: d publish_def sortCountryRevenues_def set_sort_Slice)
  from sorted_by_float [OF this] show ?thesis
    by (simp add: d publish_def sortCountryRevenues_def)
qed

lemma monthly_view_sorted:
  assumes ok: "runtime_ok rt"
    and run: "ProcessDataset env rt file dashboardData = (None, d)"
    and finite: "\<forall>e \<in> set (MonthlySales_DD d). TotalSales e \<noteq> NaN"
  shows "sorted_wrt monthly_order (MonthlySales_DD d)"
proof -
  define maps where "maps = aggregateWorker (worker_order rt (sent_records env file)) Maps_empty"
  have d: "d = publish rt maps dashboardData"
    unfolding maps_def using ok run by (rule ProcessDataset_completed)
  from finite have
    "\<forall>e \<in> set (range_monthMap rt (map snd (monthMap maps))). TotalSales e \<noteq> NaN"
    by (simp add: d publish_def sortMonthlySales_def set_sort_Slice)
  from sorted_monthly [OF this] show ?thesis
    by (simp add: d publish_def sortMonthlySales_def)
qed

lemma region_view_sorted:
  assumes ok: "runtime_ok rt"
    and run: "ProcessDataset env rt file dashboardData = (None, d)"
    and finite: "\<forall>e \<in> snd ` set (regionMap (aggregateWorker
                    (worker_order rt (sent_records env file)) Maps_empty)).
                   TotalRevenue_RR e \<noteq> NaN"
  shows "sorted_wrt (\<lambda>a b. float64_ge (TotalRevenue_RR a) (TotalRevenue_RR b)) (TopRegions d)"
proof -
  define maps where "maps = aggregateWorker (worker_order rt (sent_records env file)) Maps_empty"
  have d: "d = publish rt maps dashboardData"
    unfolding maps_def using ok run by (rule ProcessDataset_completed)
  from finite have
    "\<forall>e \<in> set (range_regionMap rt (map snd (regionMap maps))). TotalRevenue_RR e \<noteq> NaN"
    by (simp add: range_sets [OF ok] maps_def)
  from sorted_wrt_limit [OF sorted_by_float [OF this], of 30] show ?thesis
    by (simp add: d publish_def sortTopRegions_def Let_def)
qed

text \<open>
  With a NaN among two or more totals, no order of them is descending: NaN compares with
  its neighbour neither way.
\<close>

lemma successively_NaN:
  assumes "NaN \<in> set xs" and "2 \<le> length xs"
  shows "\<not> successively float64_ge xs"
  using assms
proof (induction xs rule: induct_list012)
  case 1
  then show ?case by simp
next
  case (2 x)
  then show ?case by simp
next
  case (3 x y zs)
  show ?case
  proof (cases "x = NaN \<or> y = NaN")
    case True
    then have "\<not> float64_ge x y" by (auto simp add: float64_ge_def)
    then show ?thesis by simp
  next
    case False
    with "3.prems" have "NaN \<in> set zs" by auto
    then have "NaN \<in> set (y # zs)" and "2 \<le> length (y # zs)"
      by (cases zs; simp)+
    with "3.IH"(2) have "\<not> successively float64_ge (y # zs)" by blast
    then show ?thesis by simp
  qed
qed

lemma sent_records_sample_file_NaN:
  "sent_records sample_stdlib (Opened sample_file_NaN) =
     [Transaction_zero\<lparr>Country := ''US'', ProductName := ''Pen'', TotalPrice := Fin 1\<rparr>,
      Transaction_zero\<lparr>Country := ''UK'', ProductName := ''Ink'', TotalPrice := NaN\<rparr>,
      Transaction_zero\<lparr>Country := ''DE'', ProductName := ''Pad'', TotalPrice := Fin 2\<rparr>]"
  unfolding sample_file_NaN_def
  by (simp add: sent_records_def readCSV_sent sample_eval Transaction_zero_def)

lemma ProcessDataset_sample_file_NaN:
  "ProcessDataset sample_stdlib rt (Opened sample_file_NaN) New =
     (None, snd (ProcessDataset sample_stdlib rt (Opened sample_file_NaN) New))"
  unfolding sample_file_NaN_def by (simp add: ProcessDataset_sent [OF readCSV_sent])

text \<open>
  So the country-product view of the file with the total price \<^verbatim>\<open>NaN\<close> is out of order
  whatever the workers and \<^verbatim>\<open>range\<close> do.
\<close>

lemma NaN_view_unsorted_in_every_order:
  assumes ok: "runtime_ok rt"
  shows "\<not> successively (\<lambda>a b. float64_ge (TotalRevenue_CR a) (TotalRevenue_CR b))
           (CountryRevenues (snd (ProcessDataset sample_stdlib rt (Opened sample_file_NaN) New)))"
proof -
  define sent where "sent = sent_records sample_stdlib (Opened sample_file_NaN)"
  define ts where "ts = worker_order rt sent"
  define d where "d = snd (ProcessDataset sample_stdlib rt (Opened sample_file_NaN) New)"
  have d: "d = publish rt (aggregateWorker ts Maps_empty) New"
    unfolding ts_def sent_def using ok ProcessDataset_sample_file_NaN [of rt, folded d_def]
    by (rule ProcessDataset_completed)
  have same: "mset ts = mset sent"
    using ok by (simp add: ts_def runtime_ok_def)
  have "mset (filter (\<lambda>t. countryKey t = ''UK-Ink'') ts) =
          mset (filter (\<lambda>t. countryKey t = ''UK-Ink'') sent)"
    by (simp only: mset_filter same)
  also have "\<dots> = {#Transaction_zero\<lparr>Country := ''UK'', ProductName := ''Ink'', TotalPrice := NaN\<rparr>#}"
    by (simp add: sent_def sent_records_sample_file_NaN countryKey_def Transaction_zero_def)
  finally have bucket: "filter (\<lambda>t. countryKey t = ''UK-Ink'') ts =
      [Transaction_zero\<lparr>Country := ''UK'', ProductName := ''Ink'', TotalPrice := NaN\<rparr>]"
    by (simp only: mset_single_iff)
  have "map_of (countryMap (aggregateWorker ts Maps_empty)) ''UK-Ink'' =
          Some \<lparr>Country_CR = ''UK'', ProductName_CR = ''Ink'', TotalRevenue_CR = NaN,
                TransactionCount = 1\<rparr>"
    by (simp add: countryMap_aggregateWorker map_of_upsert_all Maps_empty_def bucket
        Transaction_zero_def)
  then have "(''UK-Ink'', \<lparr>Country_CR = ''UK'', ProductName_CR = ''Ink'', TotalRevenue_CR = NaN,
                TransactionCount = 1\<rparr>) \<in> set (countryMap (aggregateWorker ts Maps_empty))"
    by (rule map_of_SomeD)
  then have "\<lparr>Country_CR = ''UK'', ProductName_CR = ''Ink'', TotalRevenue_CR = NaN,
                TransactionCount = 1\<rparr> \<in> snd ` set (countryMap (aggregateWorker ts Maps_empty))"
    by (rule image_eqI [rotated]) simp
  then have "\<lparr>Country_CR = ''UK'', ProductName_CR = ''Ink'', TotalRevenue_CR = NaN,
                TransactionCount = 1\<rparr> \<in> set (CountryRevenues d)"
    by (simp add: d publish_def sortCountryRevenues_def set_sort_Slice range_sets [OF ok])
  then have "TotalRevenue_CR \<lparr>Country_CR = ''UK'', ProductName_CR = ''Ink'', TotalRevenue_CR = NaN,
                TransactionCount = 1\<rparr> \<in> TotalRevenue_CR ` set (CountryRevenues d)"
    by (rule imageI)
  then have member: "NaN \<in> set (map TotalRevenue_CR (CountryRevenues d))" by simp
  have "set ts = set sent"
    unfolding ts_def using ok by (rule worker_order_set)
  then have "length (CountryRevenues d) = card (countryKey ` set sent)"
    by (simp add: d publish_def sortCountryRevenues_def length_sort_Slice
        range_lengths [OF ok] length_maps)
  also have "\<dots> = 3"
    by (simp add: sent_def sent_records_sample_file_NaN countryKey_def Transaction_zero_def)
  finally have "2 \<le> length (map TotalRevenue_CR (CountryRevenues d))" by simp
  with member have "\<not> successively float64_ge (map TotalRevenue_CR (CountryRevenues d))"
    by (rule successively_NaN)
  then show ?thesis
    by (simp add: successively_map d_def)
qed

subsection \<open>The schedules of the goroutines\<close>

text \<open>Once \<^verbatim>\<open>transactionCh\<close> is closed the workers can all return.\<close>

lemma workers_all_return:
  assumes "transactionCh_closed s" and "workers s = n"
  shows "(go_step r)\<^sup>*\<^sup>* s (s\<lparr>workers := 0\<rparr>)"
  using assms
proof (induction n arbitrary: s)
  case 0
  then have "s\<lparr>workers := 0\<rparr> = s" by simp
  then show ?case by simp
next
  case (Suc n)
  then have "go_step r s (s\<lparr>workers := workers s - 1\<rparr>)"
    by (intro worker_returns) simp_all
  moreover have "(go_step r)\<^sup>*\<^sup>* (s\<lparr>workers := workers s - 1\<rparr>) (s\<lparr>workers := workers s - 1\<rparr>\<lparr>workers := 0\<rparr>)"
    using Suc.prems by (intro Suc.IH) simp_all
  ultimately show ?case by simp
qed

text \<open>
  When \<^verbatim>\<open>readCSV\<close> fails there is a schedule in which the \<^verbatim>\<open>select\<close> takes \<^verbatim>\<open>done\<close>: the
  reader sends the error and closes \<^verbatim>\<open>transactionCh\<close>, the workers return, \<^verbatim>\<open>done\<close> is
  closed, and only then does the caller reach the \<^verbatim>\<open>select\<close>, with both cases ready.
\<close>

lemma error_select_can_take_done: "select_can_take (Inl err) numWorkers done_case"
proof -
  define s1 where "s1 = (goroutines_start numWorkers)\<lparr>reader := Sent_error, errorCh := Some err\<rparr>"
  define s2 where "s2 = s1\<lparr>reader := Returned, transactionCh_closed := True\<rparr>"
  define s3 where "s3 = s2\<lparr>workers := 0\<rparr>"
  define s4 where "s4 = s3\<lparr>done_closed := True\<rparr>"
  define s5 where "s5 = s4\<lparr>main := Took done_case\<rparr>"
  have "go_step (Inl err) (goroutines_start numWorkers) s1"
    using reader_sends_error [of "goroutines_start numWorkers" "Inl err" err]
    by (simp add: s1_def goroutines_start_def)
  moreover have "go_step (Inl err) s1 s2"
    unfolding s2_def by (rule reader_closes_after_error) (simp add: s1_def)
  moreover have "(go_step (Inl err))\<^sup>*\<^sup>* s2 s3"
    unfolding s3_def by (rule workers_all_return [where n = "workers s2"]) (simp_all add: s2_def)
  moreover have "go_step (Inl err) s3 s4"
    using done_is_closed [of s3 "Inl err"]
    by (simp add: s4_def s3_def s2_def s1_def goroutines_start_def)
  moreover have "go_step (Inl err) s4 s5"
    unfolding s5_def by (rule select_takes_done)
      (simp_all add: s4_def s3_def s2_def s1_def goroutines_start_def)
  ultimately have "(go_step (Inl err))\<^sup>*\<^sup>* (goroutines_start numWorkers) s5"
    by (meson converse_rtranclp_into_rtranclp r_into_rtranclp rtranclp_trans)
  moreover have "main s5 = Took done_case" by (simp add: s5_def)
  ultimately show ?thesis unfolding select_can_take_def by blast
qed

text \<open>
  And one in which it takes \<^verbatim>\<open>errorCh\<close>: the caller is parked before the reader fails.
\<close>

lemma error_select_can_take_errorCh: "select_can_take (Inl err) numWorkers errorCh_case"
proof -
  define s1 where "s1 = (goroutines_start numWorkers)\<lparr>main := Parked\<rparr>"
  define s2 where "s2 = s1\<lparr>reader := Sent_error, errorCh := Some err, main := Took errorCh_case\<rparr>"
  have "go_step (Inl err) (goroutines_start numWorkers) s1"
    unfolding s1_def by (rule select_parks) (simp_all add: goroutines_start_def)
  moreover have "go_step (Inl err) s1 s2"
    using reader_sends_error [of s1 "Inl err" err]
    by (simp add: s2_def s1_def goroutines_start_def)
  ultimately have "(go_step (Inl err))\<^sup>*\<^sup>* (goroutines_start numWorkers) s2"
    by (meson converse_rtranclp_into_rtranclp r_into_rtranclp)
  moreover have "main s2 = Took errorCh_case" by (simp add: s2_def)
  ultimately show ?thesis unfolding select_can_take_def by blast
qed

text \<open>
  In every reachable state: \<^verbatim>\<open>errorCh\<close> holds an error only when \<^verbatim>\<open>readCSV\<close> failed; the
  \<^verbatim>\<open>select\<close> has taken \<^verbatim>\<open>done\<close> only when \<^verbatim>\<open>done\<close> is closed, which needs every worker to
  have returned, which needs \<^verbatim>\<open>transactionCh\<close> closed, which needs the reader to have
  returned.
\<close>

lemma go_step_invariant:
  assumes "(go_step r)\<^sup>*\<^sup>* (goroutines_start numWorkers) s"
  shows "(errorCh s \<noteq> None \<longrightarrow> (\<exists>err. r = Inl err)) \<and>
         (main s = Took errorCh_case \<longrightarrow> (\<exists>err. r = Inl err)) \<and>
         (main s = Took done_case \<longrightarrow> done_closed s) \<and>
         (done_closed s \<longrightarrow> workers s = 0) \<and>
         (workers s < numWorkers \<longrightarrow> transactionCh_closed s) \<and>
         (transactionCh_closed s \<longrightarrow> reader s = Returned) \<and>
         workers s \<le> numWorkers"
  using assms
proof (induction rule: rtranclp_induct)
  case base
  then show ?case by (simp add: goroutines_start_def)
next
  case (step s s')
  from step.hyps(2) step.IH show ?case
    by (cases rule: go_step.cases) (auto split: if_splits)
qed

text \<open>When \<^verbatim>\<open>readCSV\<close> returns nil the \<^verbatim>\<open>select\<close> takes \<^verbatim>\<open>done\<close>, and can.\<close>

lemma success_select_takes_done:
  "select_can_take (Inr sent) numWorkers c \<longleftrightarrow> c = done_case"
proof
  assume "select_can_take (Inr sent) numWorkers c"
  then obtain s where "(go_step (Inr sent))\<^sup>*\<^sup>* (goroutines_start numWorkers) s" "main s = Took c"
    unfolding select_can_take_def by blast
  with go_step_invariant [of "Inr sent" numWorkers s] show "c = done_case"
    by (cases c) auto
next
  assume c: "c = done_case"
  define s1 where "s1 = (goroutines_start numWorkers)\<lparr>reader := Returned, transactionCh_closed := True\<rparr>"
  define s3 where "s3 = s1\<lparr>workers := 0\<rparr>"
  define s4 where "s4 = s3\<lparr>done_closed := True\<rparr>"
  define s5 where "s5 = s4\<lparr>main := Took done_case\<rparr>"
  have "go_step (Inr sent) (goroutines_start numWorkers) s1"
    unfolding s1_def by (rule reader_closes [where sent = sent]) (simp_all add: goroutines_start_def)
  moreover have "(go_step (Inr sent))\<^sup>*\<^sup>* s1 s3"
    unfolding s3_def by (rule workers_all_return [where n = "workers s1"]) (simp_all add: s1_def)
  moreover have "go_step (Inr sent) s3 s4"
    using done_is_closed [of s3 "Inr sent"]
    by (simp add: s4_def s3_def s1_def goroutines_start_def)
  moreover have "go_step (Inr sent) s4 s5"
    unfolding s5_def by (rule select_takes_done)
      (simp_all add: s4_def s3_def s1_def goroutines_start_def)
  ultimately have "(go_step (Inr sent))\<^sup>*\<^sup>* (goroutines_start numWorkers) s5"
    by (meson converse_rtranclp_into_rtranclp r_into_rtranclp rtranclp_trans)
  moreover have "main s5 = Took done_case" by (simp add: s5_def)
  ultimately show "select_can_take (Inr sent) numWorkers c"
    unfolding select_can_take_def c by blast
qed

section \<open>The claims\<close>

subsection \<open>C1: the transaction counts add up to the valid rows\<close>

text \<open>
  Claim C1. For every file whose header is read, and for every order in which the workers
  take the rows and every order in which \<^verbatim>\<open>range\<close> goes through the maps, \<^verbatim>\<open>ProcessDataset\<close>
  returns nil and the transaction counts of the published country-product view add up to
  the number of structurally valid rows after the header. (Each row adds 1 to the count of
  its entry: the entry is inserted with count 1 and counted up by 1 afterwards.)
\<close>

theorem country_counts_sum_to_valid_rows:
  assumes "runtime_ok rt"
  shows "fst (ProcessDataset env rt (Opened (Record headers # rows)) dashboardData) = None \<and>
         (\<Sum>e\<leftarrow>CountryRevenues
               (snd (ProcessDataset env rt (Opened (Record headers # rows)) dashboardData)).
             TransactionCount e)
           = int (length (valid_rows rows)) \<and>
         map_option TransactionCount (map_of (countryMap (aggregate_one t m)) (countryKey t)) =
           Some (case map_of (countryMap m) (countryKey t) of
                   None \<Rightarrow> 1
                 | Some countryRev \<Rightarrow> TransactionCount countryRev + 1)"
proof -
  define sent where
    "sent = map (\<lambda>record'. spec_parse env record' (header_index env headers)) (valid_rows rows)"
  define maps where "maps = aggregateWorker (worker_order rt sent) Maps_empty"
  have run: "ProcessDataset env rt (Opened (Record headers # rows)) dashboardData =
               (None, publish rt maps dashboardData)"
    unfolding maps_def sent_def by (rule ProcessDataset_sent) (rule readCSV_sent)
  have view: "CountryRevenues (publish rt maps dashboardData) =
                sort_Slice (\<lambda>a b. float64_gt (TotalRevenue_CR a) (TotalRevenue_CR b))
                  (range_countryMap rt (map snd (countryMap maps)))"
    by (simp add: publish_def sortCountryRevenues_def)
  have "mset (CountryRevenues (publish rt maps dashboardData)) = mset (map snd (countryMap maps))"
    using assms by (simp only: view mset_sort_Slice runtime_ok_def)
  then have "(\<Sum>e\<leftarrow>CountryRevenues (publish rt maps dashboardData). TransactionCount e)
               = (\<Sum>e\<leftarrow>map snd (countryMap maps). TransactionCount e)"
    by (rule sum_list_mset_cong)
  also have "\<dots> = int (length (worker_order rt sent))"
    unfolding maps_def by (rule sum_TransactionCount_countryMap)
  also have "\<dots> = int (length (valid_rows rows))"
    using assms by (simp add: worker_order_length sent_def)
  finally have total: "(\<Sum>e\<leftarrow>CountryRevenues (publish rt maps dashboardData). TransactionCount e)
               = int (length (valid_rows rows))" .
  have step: "map_option TransactionCount (map_of (countryMap (aggregate_one t m)) (countryKey t)) =
           Some (case map_of (countryMap m) (countryKey t) of
                   None \<Rightarrow> 1
                 | Some countryRev \<Rightarrow> TransactionCount countryRev + 1)"
    by (simp add: map_of_countryMap_step split: option.splits)
  from total step show ?thesis by (simp add: run)
qed

text \<open>
  The theorem at the sample file: three valid rows and one rejected row give the sum 3.
\<close>

theorem country_counts_sum_to_valid_rows_witness:
  "fst (ProcessDataset sample_stdlib sample_runtime (Opened sample_file) New) = None \<and>
   (\<Sum>e\<leftarrow>CountryRevenues (snd (ProcessDataset sample_stdlib sample_runtime (Opened sample_file) New)).
      TransactionCount e) = 3"
  using country_counts_sum_to_valid_rows [OF runtime_ok_sample, of sample_stdlib
      "[''Country'', ''Region'', ''product_name'', ''quantity'', ''total_price'',
        ''stock_quantity'', ''transaction_date'']"
      "[Record [''USA'', ''West'', ''Laptop'', ''2'', ''1000'', ''100'', ''2024-01-15''],
        ReadError,
        Record [''USA'', ''West'', ''Laptop'', ''1'', ''500'', ''0'', ''03/15/2024''],
        Record [''UK'', ''London'', ''Phone'', ''1'', ''800'', ''150'', ''never'']]" New]
  by (simp add: sample_file_def)

subsection \<open>C2: the purchase count of a product\<close>

text \<open>
  Claim C2, amended. In the product map, for every product name, the purchase count after
  the records is the number of records with that product name, and the map has no entry
  for a name that no record has: the first record of a name sets the count to 1 and every
  later one adds 1. The quantity of a record is not used.
\<close>

theorem purchase_count_counts_records:
  "map_option PurchaseCount (map_of (productMap (aggregateWorker ts Maps_empty)) name) =
     (if \<exists>t \<in> set ts. ProductName t = name
      then Some (int (length (filter (\<lambda>t. ProductName t = name) ts)))
      else None) \<and>
   map_option PurchaseCount (map_of (productMap (aggregate_one t m)) (ProductName t)) =
     Some (case map_of (productMap m) (ProductName t) of
             None \<Rightarrow> 1
           | Some product \<Rightarrow> PurchaseCount product + 1)"
proof
  show "map_option PurchaseCount (map_of (productMap (aggregateWorker ts Maps_empty)) name) =
     (if \<exists>t \<in> set ts. ProductName t = name
      then Some (int (length (filter (\<lambda>t. ProductName t = name) ts)))
      else None)"
  proof (cases "filter (\<lambda>t. ProductName t = name) ts")
    case Nil
    then have "\<not> (\<exists>t \<in> set ts. ProductName t = name)"
      by (simp add: filter_empty_conv)
    with Nil show ?thesis
      by (simp add: productMap_aggregateWorker map_of_upsert_all Maps_empty_def)
  next
    case (Cons r rs)
    then have "r \<in> set (filter (\<lambda>t. ProductName t = name) ts)" by simp
    then have "r \<in> set ts \<and> ProductName r = name" by simp
    then have "\<exists>t \<in> set ts. ProductName t = name" by blast
    with Cons show ?thesis
      by (simp add: productMap_aggregateWorker map_of_upsert_all Maps_empty_def
          entry_after_None entry_after_Some PurchaseCount_foldl)
  qed
  show "map_option PurchaseCount (map_of (productMap (aggregate_one t m)) (ProductName t)) =
     Some (case map_of (productMap m) (ProductName t) of
             None \<Rightarrow> 1
           | Some product \<Rightarrow> PurchaseCount product + 1)"
    by (simp add: map_of_productMap_step split: option.splits)
qed

text \<open>
  The theorem at the three records of the repository's own aggregation test: two for
  \<^verbatim>\<open>Laptop\<close> with quantities 2 and 1, one for \<^verbatim>\<open>Smartphone\<close> with quantity 3.
\<close>

theorem purchase_count_counts_records_witness:
  "map_option PurchaseCount
     (map_of (productMap (aggregateWorker
        [Transaction_zero\<lparr>ProductName := ''Laptop'', Quantity := 2, StockQuantity := 100\<rparr>,
         Transaction_zero\<lparr>ProductName := ''Laptop'', Quantity := 1, StockQuantity := 100\<rparr>,
         Transaction_zero\<lparr>ProductName := ''Smartphone'', Quantity := 3, StockQuantity := 150\<rparr>]
        Maps_empty)) ''Laptop'') = Some 2"
  using purchase_count_counts_records [of
      "[Transaction_zero\<lparr>ProductName := ''Laptop'', Quantity := 2, StockQuantity := 100\<rparr>,
        Transaction_zero\<lparr>ProductName := ''Laptop'', Quantity := 1, StockQuantity := 100\<rparr>,
        Transaction_zero\<lparr>ProductName := ''Smartphone'', Quantity := 3, StockQuantity := 150\<rparr>]"
      "''Laptop''"]
  by (simp add: Transaction_zero_def)

text \<open>
  Claim C2 as stated fails at the same records: the quantities of \<^verbatim>\<open>Laptop\<close> add up to 3
  and its purchase count is 2.
\<close>

theorem purchase_count_quantity_counterexample:
  "map_option PurchaseCount
     (map_of (productMap (aggregateWorker
        [Transaction_zero\<lparr>ProductName := ''Laptop'', Quantity := 2, StockQuantity := 100\<rparr>,
         Transaction_zero\<lparr>ProductName := ''Laptop'', Quantity := 1, StockQuantity := 100\<rparr>,
         Transaction_zero\<lparr>ProductName := ''Smartphone'', Quantity := 3, StockQuantity := 150\<rparr>]
        Maps_empty)) ''Laptop'') = Some 2 \<and>
   Quantity (Transaction_zero\<lparr>ProductName := ''Laptop'', Quantity := 2, StockQuantity := 100\<rparr>) +
   Quantity (Transaction_zero\<lparr>ProductName := ''Laptop'', Quantity := 1, StockQuantity := 100\<rparr>)
     = 3"
  by (simp add: aggregate_one_def Maps_empty_def Transaction_zero_def)

subsection \<open>C3: the current stock of a product\<close>

text \<open>
  Claim C3, amended: the guard is "greater than zero". \<^verbatim>\<open>aggregateWorker\<close>, run over a list
  of records from empty maps, leaves under every product name with a record the stock
  reading of the last record after the first whose reading is greater than zero, and the
  reading of the first record if there is none. A reading that is zero or negative never
  overwrites the recorded value. After a run that returns nil and that aggregated the
  records in the order of the file, every entry of the published top-products view holds
  this stock, taken over the records of its product in the file.
\<close>

theorem latest_positive_stock_wins:
  "(filter (\<lambda>t. ProductName t = name) ts = first # later \<longrightarrow>
      map_option CurrentStock (map_of (productMap (aggregateWorker ts Maps_empty)) name) =
        Some (spec_current_stock (StockQuantity first) (map StockQuantity later))) \<and>
   (StockQuantity t \<le> 0 \<and> map_of (productMap m) (ProductName t) = Some product \<longrightarrow>
      map_option CurrentStock (map_of (productMap (aggregate_one t m)) (ProductName t)) =
        Some (CurrentStock product)) \<and>
   (runtime_ok rt \<and> ProcessDataset env rt file dashboardData = (None, d) \<and>
    worker_order rt (sent_records env file) = sent_records env file \<and>
    p \<in> set (TopProducts d) \<longrightarrow>
      (\<exists>first' later'.
         filter (\<lambda>t. ProductName t = ProductName_PF p) (sent_records env file) = first' # later' \<and>
         CurrentStock p = spec_current_stock (StockQuantity first') (map StockQuantity later')))"
proof (intro conjI impI)
  assume "filter (\<lambda>t. ProductName t = name) ts = first # later"
  then show "map_option CurrentStock (map_of (productMap (aggregateWorker ts Maps_empty)) name) =
        Some (spec_current_stock (StockQuantity first) (map StockQuantity later))"
    by (simp add: productMap_aggregateWorker map_of_upsert_all Maps_empty_def
        entry_after_None entry_after_Some CurrentStock_foldl)
next
  assume "StockQuantity t \<le> 0 \<and> map_of (productMap m) (ProductName t) = Some product"
  then show "map_option CurrentStock (map_of (productMap (aggregate_one t m)) (ProductName t)) =
        Some (CurrentStock product)"
    by (simp add: map_of_productMap_step)
next
  assume a: "runtime_ok rt \<and> ProcessDataset env rt file dashboardData = (None, d) \<and>
    worker_order rt (sent_records env file) = sent_records env file \<and>
    p \<in> set (TopProducts d)"
  then have ok: "runtime_ok rt" and run: "ProcessDataset env rt file dashboardData = (None, d)"
    and order: "worker_order rt (sent_records env file) = sent_records env file"
    and p: "p \<in> set (TopProducts d)"
    by simp_all
  from published_stock [OF ok run p]
  show "\<exists>first' later'.
         filter (\<lambda>t. ProductName t = ProductName_PF p) (sent_records env file) = first' # later' \<and>
         CurrentStock p = spec_current_stock (StockQuantity first') (map StockQuantity later')"
    by (simp only: order)
qed

text \<open>
  The theorem at the readings 100, 0, 150 of one product: with a record of another product
  in between the final stock is 150; the reading 0 leaves 100 in place; and the run on the
  file with these three rows publishes the stock 150.
\<close>

theorem latest_positive_stock_wins_witness:
  "map_option CurrentStock
     (map_of (productMap (aggregateWorker
        [Transaction_zero\<lparr>ProductName := ''Pen'', StockQuantity := 100\<rparr>,
         Transaction_zero\<lparr>ProductName := ''Ink'', StockQuantity := 7\<rparr>,
         Transaction_zero\<lparr>ProductName := ''Pen'', StockQuantity := 0\<rparr>,
         Transaction_zero\<lparr>ProductName := ''Pen'', StockQuantity := 150\<rparr>]
        Maps_empty)) ''Pen'') = Some 150 \<and>
   map_option CurrentStock
     (map_of (productMap (aggregate_one
        (Transaction_zero\<lparr>ProductName := ''Pen'', StockQuantity := 0\<rparr>)
        (Maps_empty\<lparr>productMap :=
           [(''Pen'', \<lparr>ProductName_PF = ''Pen'', PurchaseCount = 1, CurrentStock = 100\<rparr>)]\<rparr>)))
        (ProductName (Transaction_zero\<lparr>ProductName := ''Pen'', StockQuantity := 0\<rparr>)))
     = Some 100 \<and>
   TopProducts (snd (ProcessDataset sample_stdlib sample_runtime (Opened sample_file_stock) New)) =
     [\<lparr>ProductName_PF = ''Pen'', PurchaseCount = 3, CurrentStock = 150\<rparr>] \<and>
   spec_current_stock 100 [0, 150] = 150"
proof -
  have order: "worker_order sample_runtime (sent_records sample_stdlib (Opened sample_file_stock)) =
      sent_records sample_stdlib (Opened sample_file_stock)"
    by (simp add: sample_runtime_def)
  have p: "\<lparr>ProductName_PF = ''Pen'', PurchaseCount = 3, CurrentStock = 150\<rparr> \<in>
      set (TopProducts (snd (ProcessDataset sample_stdlib sample_runtime
             (Opened sample_file_stock) New)))"
    by (simp add: TopProducts_sample_file_stock)
  show ?thesis
    using latest_positive_stock_wins [of "''Pen''"
      "[Transaction_zero\<lparr>ProductName := ''Pen'', StockQuantity := 100\<rparr>,
        Transaction_zero\<lparr>ProductName := ''Ink'', StockQuantity := 7\<rparr>,
        Transaction_zero\<lparr>ProductName := ''Pen'', StockQuantity := 0\<rparr>,
        Transaction_zero\<lparr>ProductName := ''Pen'', StockQuantity := 150\<rparr>]"
      "Transaction_zero\<lparr>ProductName := ''Pen'', StockQuantity := 100\<rparr>"
      "[Transaction_zero\<lparr>ProductName := ''Pen'', StockQuantity := 0\<rparr>,
        Transaction_zero\<lparr>ProductName := ''Pen'', StockQuantity := 150\<rparr>]"
      "Transaction_zero\<lparr>ProductName := ''Pen'', StockQuantity := 0\<rparr>"
      "Maps_empty\<lparr>productMap :=
           [(''Pen'', \<lparr>ProductName_PF = ''Pen'', PurchaseCount = 1, CurrentStock = 100\<rparr>)]\<rparr>"
      "\<lparr>ProductName_PF = ''Pen'', PurchaseCount = 1, CurrentStock = 100\<rparr>"
      sample_runtime sample_stdlib "Opened sample_file_stock" New
      "snd (ProcessDataset sample_stdlib sample_runtime (Opened sample_file_stock) New)"
      "\<lparr>ProductName_PF = ''Pen'', PurchaseCount = 3, CurrentStock = 150\<rparr>"]
      runtime_ok_sample ProcessDataset_sample_file_stock order p
    by (simp add: TopProducts_sample_file_stock Transaction_zero_def Maps_empty_def
        spec_current_stock_def)
qed

text \<open>
  Claim C3 as stated ("the last record whose stock value was non-zero") fails at the
  readings 100 and -5: \<^verbatim>\<open>strconv.Atoi\<close> reads \<^verbatim>\<open>-5\<close>, the guard is
  \<^verbatim>\<open>transaction.StockQuantity > 0\<close>, and the stock stays 100.
\<close>

theorem negative_stock_counterexample:
  "map_option CurrentStock
     (map_of (productMap (aggregateWorker
        [Transaction_zero\<lparr>ProductName := ''Pen'', StockQuantity := 100\<rparr>,
         Transaction_zero\<lparr>ProductName := ''Pen'', StockQuantity := - 5\<rparr>]
        Maps_empty)) ''Pen'') = Some 100 \<and>
   claimed_current_stock 100 [- 5] = - 5"
  by (simp add: aggregate_one_def Maps_empty_def Transaction_zero_def claimed_current_stock_def)

subsection \<open>C4: a run that cannot read its header\<close>

text \<open>
  Claim C4 fails on the code in one schedule. The file opens and is empty, so reading the
  header fails. The reader puts the error on \<^verbatim>\<open>errorCh\<close> and closes \<^verbatim>\<open>transactionCh\<close>; the
  workers end and \<^verbatim>\<open>done\<close> is closed. When the caller reaches the \<^verbatim>\<open>select\<close> only then, it
  finds both channels ready and can take \<^verbatim>\<open>done\<close>: with any number of workers this schedule
  exists, and in it the call returns nil and the published views are replaced by empty
  ones.
\<close>

theorem header_failure_select_done:
  "select_can_take (readCSV sample_stdlib []) numWorkers (select_takes sample_runtime_done) \<and>
   ProcessDataset sample_stdlib sample_runtime_done (Opened [])
     (New\<lparr>CountryRevenues :=
            [\<lparr>Country_CR = ''USA'', ProductName_CR = ''Laptop'', TotalRevenue_CR = Fin 1500,
              TransactionCount = 2\<rparr>],
          RecordCount := 1\<rparr>) =
   (None,
    New\<lparr>LastUpdated := \<lparr>Time_Year = 2024, Time_Month = March, Time_Day = 16, Time_Nanosecond = 0\<rparr>,
        ProcessingDuration := 1000000\<rparr>)"
proof
  show "select_can_take (readCSV sample_stdlib []) numWorkers (select_takes sample_runtime_done)"
    by (simp add: readCSV_header_failed sample_runtime_done_def error_select_can_take_done)
next
  show "ProcessDataset sample_stdlib sample_runtime_done (Opened [])
     (New\<lparr>CountryRevenues :=
            [\<lparr>Country_CR = ''USA'', ProductName_CR = ''Laptop'', TotalRevenue_CR = Fin 1500,
              TransactionCount = 2\<rparr>],
          RecordCount := 1\<rparr>) =
   (None,
    New\<lparr>LastUpdated := \<lparr>Time_Year = 2024, Time_Month = March, Time_Day = 16, Time_Nanosecond = 0\<rparr>,
        ProcessingDuration := 1000000\<rparr>)"
    by (simp add: ProcessDataset_header_error readCSV_header_failed sample_runtime_done_def
        sample_runtime_def publish_def Maps_empty_def New_def sortCountryRevenues_def
        sortTopProducts_def sortMonthlySales_def sortTopRegions_def sort_Slice_def)
qed

subsection \<open>C5: one entry for each country and product\<close>

text \<open>
  Claim C5 fails on the code: the key is the country, a hyphen and the product name, so the
  pairs (\<^verbatim>\<open>Guinea-Bissau\<close>, \<^verbatim>\<open>Cable\<close>) and (\<^verbatim>\<open>Guinea\<close>, \<^verbatim>\<open>Bissau-Cable\<close>) have one key. The
  two records end in one entry, under the names of the first, with both revenues and the
  count 2.
\<close>

theorem country_key_collision:
  "countryMap (aggregateWorker
     [Transaction_zero\<lparr>Country := ''Guinea-Bissau'', ProductName := ''Cable'', TotalPrice := Fin 10\<rparr>,
      Transaction_zero\<lparr>Country := ''Guinea'', ProductName := ''Bissau-Cable'', TotalPrice := Fin 5\<rparr>]
     Maps_empty) =
   [(''Guinea-Bissau-Cable'',
     \<lparr>Country_CR = ''Guinea-Bissau'', ProductName_CR = ''Cable'', TotalRevenue_CR = Fin 15,
      TransactionCount = 2\<rparr>)]"
  by (simp add: aggregate_one_def Maps_empty_def Transaction_zero_def countryKey_def
      float64_round_numeral)

subsection \<open>C6: the parser never rejects a row\<close>

text \<open>
  Claim C6. For every row and every header map, \<^verbatim>\<open>parseTransaction\<close> returns a transaction
  and a nil error. A field whose column is missing from the header map, or whose index is
  past the end of the row, has its zero value; a text field is the trimmed cell; price,
  total price, quantity and stock are the number parsed from the trimmed cell, and zero
  when parsing fails; each date is parsed with the layouts \<^verbatim>\<open>2006-01-02\<close>,
  \<^verbatim>\<open>2006-01-02 15:04:05\<close>, \<^verbatim>\<open>01/02/2006\<close>, \<^verbatim>\<open>01-02-2006\<close>, \<^verbatim>\<open>2006/01/02\<close> in this order,
  the first that parses wins, and the date stays at its zero value when none does. A header
  map gives the indices of columns, which are not negative: \<^verbatim>\<open>readCSV\<close>, the only caller,
  fills the map from \<^verbatim>\<open>range headers\<close> (lemma \<open>header_index_nonneg\<close>).
\<close>

theorem parseTransaction_tolerant:
  assumes "\<forall>name idx. headerMap name = Some idx \<longrightarrow> 0 \<le> idx"
  shows "parseTransaction env record' headerMap =
     Inr (\<lparr>TransactionID = spec_text env (cell record' headerMap ''transaction_id''),
           TransactionDate = spec_date env (cell record' headerMap ''transaction_date''),
           UserID = spec_text env (cell record' headerMap ''user_id''),
           Country = spec_text env (cell record' headerMap ''country''),
           Region = spec_text env (cell record' headerMap ''region''),
           ProductID = spec_text env (cell record' headerMap ''product_id''),
           ProductName = spec_text env (cell record' headerMap ''product_name''),
           Category = spec_text env (cell record' headerMap ''category''),
           Price = spec_float env (cell record' headerMap ''price''),
           Quantity = spec_int env (cell record' headerMap ''quantity''),
           TotalPrice = spec_float env (cell record' headerMap ''total_price''),
           StockQuantity = spec_int env (cell record' headerMap ''stock_quantity''),
           AddedDate = spec_date env (cell record' headerMap ''added_date'')\<rparr>, None)"
  unfolding parseTransaction_def
  by (simp add: column_cell [OF assms] assign_as_update Transaction_zero_def spec_as_or_keep)

text \<open>
  The theorem at the header map that \<^verbatim>\<open>readCSV\<close> builds from six headers, and a row with a
  padded identifier, a price that is no number, a date in the third layout, a date in no
  layout, a stock column past the end of the row and no country column.
\<close>

theorem parseTransaction_tolerant_witness:
  "parseTransaction sample_stdlib [''  TXN1 '', ''abc'', ''12'', ''03/15/2024'', ''never'']
     (header_index sample_stdlib
        [''Transaction_ID'', '' price'', ''quantity'', ''transaction_date'', ''added_date'',
         ''stock_quantity'']) =
     Inr (\<lparr>TransactionID = ''TXN1'',
           TransactionDate =
             \<lparr>Time_Year = 2024, Time_Month = March, Time_Day = 15, Time_Nanosecond = 0\<rparr>,
           UserID = [], Country = [], Region = [], ProductID = [], ProductName = [],
           Category = [], Price = Fin 0, Quantity = 12, TotalPrice = Fin 0,
           StockQuantity = 0, AddedDate = Time_zero\<rparr>, None)"
proof -
  have "parseTransaction sample_stdlib [''  TXN1 '', ''abc'', ''12'', ''03/15/2024'', ''never'']
     (header_index sample_stdlib
        [''Transaction_ID'', '' price'', ''quantity'', ''transaction_date'', ''added_date'',
         ''stock_quantity'']) =
     Inr (\<lparr>TransactionID = ''TXN1'',
           TransactionDate =
             \<lparr>Time_Year = 2024, Time_Month = March, Time_Day = 15, Time_Nanosecond = 0\<rparr>,
           UserID = [], Country = [], Region = [], ProductID = [], ProductName = [],
           Category = [], Price = Fin 0, Quantity = 12, TotalPrice = Fin 0,
           StockQuantity = 0, AddedDate = Time_zero\<rparr>, None)"
    by (subst parseTransaction_tolerant [OF header_index_nonneg], simp only: header_index_sample)
      (simp add: cell_def spec_text_def spec_float_def spec_int_def spec_date_def
        sample_stdlib_def sample_TrimSpace_def sample_ParseFloat_def sample_Atoi_def
        sample_time_Parse_def)
  then show ?thesis .
qed

subsection \<open>C7: the lengths of the views\<close>

text \<open>
  Claim C7. After every run that returns nil, the top-products view has \<open>min 20\<close> of
  the number of distinct product names of the ingested records and the top-regions view has
  \<open>min 30\<close> of the number of distinct regions; the country-product view and the monthly
  view have one entry for each key of their maps, so they are not truncated.
\<close>

theorem view_lengths:
  assumes ok: "runtime_ok rt"
    and run: "ProcessDataset env rt file dashboardData = (None, d)"
  shows "length (TopProducts d) = min 20 (card (ProductName ` set (sent_records env file))) \<and>
         length (TopRegions d) = min 30 (card (Region ` set (sent_records env file))) \<and>
         length (CountryRevenues d) = card (countryKey ` set (sent_records env file)) \<and>
         length (MonthlySales_DD d) = card (monthKey ` set (sent_records env file))"
proof -
  define sent where "sent = sent_records env file"
  define maps where "maps = aggregateWorker (worker_order rt sent) Maps_empty"
  have d: "d = publish rt maps dashboardData"
    unfolding maps_def sent_def using ok run by (rule ProcessDataset_completed)
  have same: "set (worker_order rt sent) = set sent"
    using ok by (rule worker_order_set)
  have products: "length (TopProducts d) = min 20 (card (ProductName ` set sent))"
    by (simp add: d publish_def sortTopProducts_def Let_def length_sort_Slice
        range_lengths [OF ok] maps_def length_maps same)
  have regions: "length (TopRegions d) = min 30 (card (Region ` set sent))"
    by (simp add: d publish_def sortTopRegions_def Let_def length_sort_Slice
        range_lengths [OF ok] maps_def length_maps same)
  have countries: "length (CountryRevenues d) = card (countryKey ` set sent)"
    by (simp add: d publish_def sortCountryRevenues_def length_sort_Slice
        range_lengths [OF ok] maps_def length_maps same)
  have months: "length (MonthlySales_DD d) = card (monthKey ` set sent)"
    by (simp add: d publish_def sortMonthlySales_def length_sort_Slice
        range_lengths [OF ok] maps_def length_maps same)
  from products regions countries months show ?thesis
    unfolding sent_def by simp
qed

text \<open>
  The theorem at the sample file: two products, two regions, two country-product keys and
  three months.
\<close>

theorem view_lengths_witness:
  "length (TopProducts (snd (ProcessDataset sample_stdlib sample_runtime (Opened sample_file) New))) = 2 \<and>
   length (TopRegions (snd (ProcessDataset sample_stdlib sample_runtime (Opened sample_file) New))) = 2 \<and>
   length (CountryRevenues (snd (ProcessDataset sample_stdlib sample_runtime (Opened sample_file) New))) = 2 \<and>
   length (MonthlySales_DD (snd (ProcessDataset sample_stdlib sample_runtime (Opened sample_file) New))) = 3"
  using view_lengths [OF runtime_ok_sample ProcessDataset_sample_file]
  by (simp add: sent_records_sample_file Transaction_zero_def Time_zero_def countryKey_def
      monthKey_def Sprintf_numerals)

subsection \<open>C8: the order of the views\<close>

text \<open>
  Claim C8 fails on the code when a total is NaN. \<^verbatim>\<open>strconv.ParseFloat\<close> reads the cell
  \<^verbatim>\<open>NaN\<close> as a number, and every comparison with it is false, so \<^verbatim>\<open>sort.Slice\<close> leaves the
  revenues 1, NaN, 2 in this order. The run on the file with these three totals returns
  nil, and its country-product view is not in descending order of total revenue: 1 is not
  greater than or equal to its neighbour NaN, NaN is not greater than or equal to its
  neighbour 2, and 1 comes before 2.
\<close>

theorem NaN_total_unsorted_view:
  "fst (ProcessDataset sample_stdlib sample_runtime (Opened sample_file_NaN) New) = None \<and>
   map TotalRevenue_CR
     (CountryRevenues (snd (ProcessDataset sample_stdlib sample_runtime (Opened sample_file_NaN) New)))
     = [Fin 1, NaN, Fin 2] \<and>
   \<not> successively (\<lambda>a b. float64_ge (TotalRevenue_CR a) (TotalRevenue_CR b))
     (CountryRevenues (snd (ProcessDataset sample_stdlib sample_runtime (Opened sample_file_NaN) New))) \<and>
   \<not> float64_ge (Fin 1) NaN \<and> \<not> float64_ge NaN (Fin 2) \<and> \<not> float64_ge (Fin 1) (Fin 2)"
  unfolding sample_file_NaN_def
  by (simp add: ProcessDataset_sent [OF readCSV_sent] sample_eval sample_runtime_def publish_def
      sortCountryRevenues_def aggregate_one_def Maps_empty_def countryKey_def
      sort_Slice_def insertion_step_def float64_gt_def float64_ge_def New_def)

subsection \<open>C9: a row with an unparsable price\<close>

text \<open>
  Claim C9, amended. For every row that \<^verbatim>\<open>readCSV\<close> parses with the header map it built, if
  the row's total-price cell fails numeric parsing then the parser returns a nil error and
  a total price of zero, and aggregating the row leaves the total revenue of its
  country-product entry as it was (zero for a new entry) while its transaction count goes
  up by 1 (1 for a new entry). The revenue is summed from the total-price column; the price
  column is parsed and never aggregated.
\<close>

theorem unparsable_total_price_adds_nothing:
  assumes parsed: "parseTransaction env record' (header_index env headers) = Inr (t, err)"
    and total: "cell record' (header_index env headers) ''total_price'' = Some s"
    and fails: "ParseFloat env (TrimSpace env s) = None"
  shows "err = None \<and> TotalPrice t = Fin 0 \<and>
         map_option (\<lambda>e. (TotalRevenue_CR e, TransactionCount e))
             (map_of (countryMap (aggregate_one t m)) (countryKey t)) =
           Some (case map_of (countryMap m) (countryKey t) of
                   None \<Rightarrow> (Fin 0, 1)
                 | Some e \<Rightarrow> (TotalRevenue_CR e, TransactionCount e + 1))"
proof -
  from parsed have t: "t = spec_parse env record' (header_index env headers)" and err: "err = None"
    by (simp_all add: parseTransaction_spec_parse [OF header_index_nonneg])
  have zero: "TotalPrice t = Fin 0"
    by (simp add: t spec_parse_def spec_float_def total fails)
  have "map_option (\<lambda>e. (TotalRevenue_CR e, TransactionCount e))
             (map_of (countryMap (aggregate_one t m)) (countryKey t)) =
           Some (case map_of (countryMap m) (countryKey t) of
                   None \<Rightarrow> (Fin 0, 1)
                 | Some e \<Rightarrow> (TotalRevenue_CR e, TransactionCount e + 1))"
    by (simp add: map_of_countryMap_step zero float64_add_zero split: option.splits)
  with err zero show ?thesis by simp
qed

text \<open>
  The theorem at a row with price 4 and the total-price cell \<^verbatim>\<open>n/a\<close>, aggregated into an
  entry with revenue 7 and count 1: the revenue stays 7 and the count becomes 2.
\<close>

theorem unparsable_total_price_adds_nothing_witness:
  "TotalPrice (Transaction_zero\<lparr>Country := ''US'', ProductName := ''Pen'', Price := Fin 4\<rparr>) = Fin 0 \<and>
   map_option (\<lambda>e. (TotalRevenue_CR e, TransactionCount e))
     (map_of (countryMap (aggregate_one
        (Transaction_zero\<lparr>Country := ''US'', ProductName := ''Pen'', Price := Fin 4\<rparr>)
        (Maps_empty\<lparr>countryMap :=
           [(''US-Pen'', \<lparr>Country_CR = ''US'', ProductName_CR = ''Pen'', TotalRevenue_CR = Fin 7,
                          TransactionCount = 1\<rparr>)]\<rparr>)))
        ''US-Pen'') = Some (Fin 7, 2)"
proof -
  have parsed: "parseTransaction sample_stdlib [''US'', ''Pen'', ''4'', ''n/a'']
      (header_index sample_stdlib [''country'', ''product_name'', ''price'', ''total_price'']) =
      Inr (Transaction_zero\<lparr>Country := ''US'', ProductName := ''Pen'', Price := Fin 4\<rparr>, None)"
    by (subst parseTransaction_spec_parse [OF header_index_nonneg])
      (simp add: sample_eval Transaction_zero_def)
  have total: "cell [''US'', ''Pen'', ''4'', ''n/a'']
      (header_index sample_stdlib [''country'', ''product_name'', ''price'', ''total_price''])
      ''total_price'' = Some ''n/a''"
    by (simp add: sample_eval)
  have fails: "ParseFloat sample_stdlib (TrimSpace sample_stdlib ''n/a'') = None"
    by (simp add: sample_eval)
  show ?thesis
    using unparsable_total_price_adds_nothing [OF parsed total fails, of
        "Maps_empty\<lparr>countryMap :=
           [(''US-Pen'', \<lparr>Country_CR = ''US'', ProductName_CR = ''Pen'', TotalRevenue_CR = Fin 7,
                          TransactionCount = 1\<rparr>)]\<rparr>"]
    by (simp add: countryKey_def Transaction_zero_def Maps_empty_def)
qed

text \<open>
  Claim C9 as stated (the price field) fails at a row whose price cell \<^verbatim>\<open>abc\<close> is no number
  and whose total-price cell is \<^verbatim>\<open>100\<close>: the row adds 100 to the revenue of its entry.
\<close>

theorem unparsable_price_counterexample:
  "ParseFloat sample_stdlib (TrimSpace sample_stdlib ''abc'') = None \<and>
   CountryRevenues (snd (ProcessDataset sample_stdlib sample_runtime
      (Opened [Record [''country'', ''product_name'', ''price'', ''total_price''],
               Record [''US'', ''Pen'', ''abc'', ''100'']]) New)) =
     [\<lparr>Country_CR = ''US'', ProductName_CR = ''Pen'', TotalRevenue_CR = Fin 100,
       TransactionCount = 1\<rparr>]"
  by (simp add: ProcessDataset_sent [OF readCSV_sent] sample_eval sample_runtime_def publish_def
      sortCountryRevenues_def aggregate_one_def Maps_empty_def countryKey_def
      sort_Slice_def insertion_step_def New_def)

subsection \<open>C10: records without a date\<close>

text \<open>
  Claim C10. A record whose transaction date is the zero value has the month key \<^verbatim>\<open>1-01\<close>.
  After any list of records that holds such a record, the month map has an entry under that
  key, with year 1 and month name \<^verbatim>\<open>January\<close>; the entry is in the published monthly view;
  its totals are the sums over all records with that key, in the order the workers took
  them, and the record is one of them.
\<close>

theorem zero_date_bucket:
  assumes zero: "TransactionDate t = Time_zero" and member: "t \<in> set ts"
    and ok: "runtime_ok rt"
  shows "monthKey t = ''1-01'' \<and>
         (\<exists>first later e.
            filter (\<lambda>u. monthKey u = ''1-01'') ts = first # later \<and>
            t \<in> set (first # later) \<and>
            map_of (monthMap (aggregateWorker ts Maps_empty)) ''1-01'' = Some e \<and>
            e \<in> set (MonthlySales_DD (publish rt (aggregateWorker ts Maps_empty) dashboardData)) \<and>
            Year e = 1 \<and> Month e = ''January'' \<and>
            TotalSales e = foldl float64_add (TotalPrice first) (map TotalPrice later) \<and>
            SalesVolume e = foldl int_add (Quantity first) (map Quantity later))"
proof -
  from zero have key: "monthKey t = ''1-01''"
    by (simp add: monthKey_zero Time_zero_def)
  with member have inb: "t \<in> set (filter (\<lambda>u. monthKey u = ''1-01'') ts)" by simp
  then obtain first later where bucket: "filter (\<lambda>u. monthKey u = ''1-01'') ts = first # later"
    by (cases "filter (\<lambda>u. monthKey u = ''1-01'') ts") auto
  then have "first \<in> set (filter (\<lambda>u. monthKey u = ''1-01'') ts)" by simp
  then have "monthKey first = ''1-01''" by simp
  then have first: "Time_Year (TransactionDate first) = 1"
      "Time_Month (TransactionDate first) = January"
    by (simp_all add: monthKey_zero)
  define e where "e = foldl (\<lambda>monthlySales t. monthlySales
       \<lparr>TotalSales := float64_add (TotalSales monthlySales) (TotalPrice t),
        SalesVolume := int_add (SalesVolume monthlySales) (Quantity t)\<rparr>)
     \<lparr>Month = Format_January (Time_Month (TransactionDate first)),
      Year = Time_Year (TransactionDate first),
      TotalSales = TotalPrice first, SalesVolume = Quantity first\<rparr> later"
  have entry: "map_of (monthMap (aggregateWorker ts Maps_empty)) ''1-01'' = Some e"
    by (simp add: monthMap_aggregateWorker map_of_upsert_all Maps_empty_def bucket
        entry_after_Some e_def)
  then have "(''1-01'', e) \<in> set (monthMap (aggregateWorker ts Maps_empty))"
    by (rule map_of_SomeD)
  then have "e \<in> snd ` set (monthMap (aggregateWorker ts Maps_empty))"
    by (rule image_eqI [rotated]) simp
  then have view: "e \<in> set (MonthlySales_DD (publish rt (aggregateWorker ts Maps_empty) dashboardData))"
    by (simp add: publish_def set_sortMonthlySales [OF ok])
  have fields: "Year e = 1" "Month e = ''January''"
    "TotalSales e = foldl float64_add (TotalPrice first) (map TotalPrice later)"
    "SalesVolume e = foldl int_add (Quantity first) (map Quantity later)"
    by (simp_all add: e_def Year_Month_foldl first)
  from inb bucket have "t \<in> set (first # later)" by simp
  with key bucket entry view fields show ?thesis by blast
qed

text \<open>
  The theorem at two records without a date and one of March 2024: the two share the
  bucket \<^verbatim>\<open>1-01\<close> with total sales 9 and volume 8.
\<close>

theorem zero_date_bucket_witness:
  "monthKey (Transaction_zero\<lparr>ProductName := ''Pen'', TotalPrice := Fin 5, Quantity := 2\<rparr>) = ''1-01'' \<and>
   map_of (monthMap (aggregateWorker
     [Transaction_zero\<lparr>ProductName := ''Pen'', TotalPrice := Fin 5, Quantity := 2\<rparr>,
      Transaction_zero\<lparr>ProductName := ''Ink'', TotalPrice := Fin 3, Quantity := 1,
        TransactionDate := \<lparr>Time_Year = 2024, Time_Month = March, Time_Day = 15,
                            Time_Nanosecond = 0\<rparr>\<rparr>,
      Transaction_zero\<lparr>ProductName := ''Pad'', TotalPrice := Fin 4, Quantity := 6\<rparr>]
     Maps_empty)) ''1-01'' =
     Some \<lparr>Month = ''January'', Year = 1, TotalSales = Fin 9, SalesVolume = 8\<rparr>"
proof -
  have zero: "TransactionDate (Transaction_zero\<lparr>ProductName := ''Pen'', TotalPrice := Fin 5,
      Quantity := 2\<rparr>) = Time_zero"
    by (simp add: Transaction_zero_def)
  have member: "Transaction_zero\<lparr>ProductName := ''Pen'', TotalPrice := Fin 5, Quantity := 2\<rparr>
    \<in> set [Transaction_zero\<lparr>ProductName := ''Pen'', TotalPrice := Fin 5, Quantity := 2\<rparr>,
      Transaction_zero\<lparr>ProductName := ''Ink'', TotalPrice := Fin 3, Quantity := 1,
        TransactionDate := \<lparr>Time_Year = 2024, Time_Month = March, Time_Day = 15,
                            Time_Nanosecond = 0\<rparr>\<rparr>,
      Transaction_zero\<lparr>ProductName := ''Pad'', TotalPrice := Fin 4, Quantity := 6\<rparr>]"
    by simp
  have key: "monthKey (Transaction_zero\<lparr>ProductName := ''Pen'', TotalPrice := Fin 5,
      Quantity := 2\<rparr>) = ''1-01''"
    using zero_date_bucket [OF zero member runtime_ok_sample] by (rule conjunct1)
  have bucket: "map_of (monthMap (aggregateWorker
     [Transaction_zero\<lparr>ProductName := ''Pen'', TotalPrice := Fin 5, Quantity := 2\<rparr>,
      Transaction_zero\<lparr>ProductName := ''Ink'', TotalPrice := Fin 3, Quantity := 1,
        TransactionDate := \<lparr>Time_Year = 2024, Time_Month = March, Time_Day = 15,
                            Time_Nanosecond = 0\<rparr>\<rparr>,
      Transaction_zero\<lparr>ProductName := ''Pad'', TotalPrice := Fin 4, Quantity := 6\<rparr>]
     Maps_empty)) ''1-01'' =
     Some \<lparr>Month = ''January'', Year = 1, TotalSales = Fin 9, SalesVolume = 8\<rparr>"
    by (simp add: aggregate_one_def Maps_empty_def Transaction_zero_def Time_zero_def monthKey_def
        Sprintf_numerals int_add_def float64_round_numeral)
  from key bucket show ?thesis by (rule conjI)
qed

end
